theory Spec2Isabelle
  imports Complex_Main "HOL-Library.Sublist"
begin

section \<open>Strings and exceptions\<close>

text \<open>
  A Python \<open>str\<close> is modelled as a \<open>string\<close>: a list of characters whose code points are
  below 256. The line terminator is the character \<open>CHR 0x0A\<close>.
\<close>

abbreviation NL :: char where
  "NL \<equiv> CHR 0x0A"

datatype exn =
    ValueError string
  | IdentifierException string
  | EnsurePdfException string
  | RequestException string
  | FileNotFoundError string

subsection \<open>\<open>str.startswith\<close> and \<open>str.replace\<close>\<close>

definition startswith :: "string \<Rightarrow> string \<Rightarrow> bool" where
  "startswith s p = (take (length p) s = p)"

text \<open>
  \<open>s.replace(old, new)\<close> replaces every non-overlapping occurrence of \<open>old\<close> in \<open>s\<close>,
  scanning from the left. For an empty \<open>old\<close> Python inserts \<open>new\<close> before every character
  and at the end.
\<close>

function replace :: "string \<Rightarrow> string \<Rightarrow> string \<Rightarrow> string" where
  "replace old new s =
     (if old = [] then new @ concat (map (\<lambda>c. c # new) s)
      else if s = [] then []
      else if startswith s old then new @ replace old new (drop (length old) s)
      else hd s # replace old new (tl s))"
  by pat_completeness auto
termination
  by (relation "measure (\<lambda>(old, new, s). length s)") auto

section \<open>The object key of a local path (\<open>sync_published_to_gcp.py\<close>)\<close>

definition path_to_bucket_key :: "string \<Rightarrow> exn + string" where
  "path_to_bucket_key pdf =
     (if startswith pdf ''/cache/'' then Inr (replace ''/cache/'' '''' pdf)
      else if startswith pdf ''/data/'' then Inr (replace ''/data/'' '''' pdf)
      else Inl (ValueError (''Cannot convert PDF path '' @ pdf @ '' to a GS key'')))"

section \<open>Regular expressions of Python's \<open>re\<close> module\<close>

text \<open>
  The patterns of \<open>make_todos\<close> are built from literal characters, \<open>.\<close>, \<open>\d\<close>, the greedy
  star of one character class, \<open>^\<close>, \<open>$\<close> and capture groups that are not nested. A pattern
  is the list of its items, in the order of the pattern text; \<open>Mark\<close> stands for a
  parenthesis (opening or closing) of a capture group.

  Without the flag \<open>DOTALL\<close>, \<open>.\<close> matches every character but the newline. Among the
  characters below 256, \<open>\d\<close> matches exactly \<open>0\<close> to \<open>9\<close>.
\<close>

datatype cls = Any | Digit | Chr char

datatype item = One cls | Star cls | Bol | Eol | Mark

fun cls_ok :: "cls \<Rightarrow> char \<Rightarrow> bool" where
  "cls_ok Any c = (c \<noteq> NL)"
| "cls_ok Digit c = (c \<in> set ''0123456789'')"
| "cls_ok (Chr d) c = (c = d)"

definition lit :: "string \<Rightarrow> item list" where
  "lit s = map (\<lambda>c. One (Chr c)) s"

text \<open>
  \<open>^\<close> matches at the start of the string and, with \<open>MULTILINE\<close>, after every newline;
  \<open>$\<close> matches at the end of the string and before the newline that ends the string, and
  with \<open>MULTILINE\<close> before every newline. The flag is the first argument, the character
  before the current position (if any) the argument \<open>prev\<close>.
\<close>

fun at_bol :: "bool \<Rightarrow> char option \<Rightarrow> bool" where
  "at_bol ml None = True"
| "at_bol ml (Some c) = (ml \<and> c = NL)"

fun at_eol :: "bool \<Rightarrow> string \<Rightarrow> bool" where
  "at_eol ml [] = True"
| "at_eol ml (c # cs) = (c = NL \<and> (ml \<or> cs = []))"

text \<open>
  The backtracking matcher: \<open>re_m ml its pos prev rest\<close> matches the items \<open>its\<close> against
  \<open>rest\<close>, the text from position \<open>pos\<close> on. A star is greedy: it takes one more character
  first and gives it back only when the remaining pattern fails. The result lists the
  positions at which the parentheses were passed, in pattern order, followed by the
  position where the match ends.
\<close>

fun re_m :: "bool \<Rightarrow> item list \<Rightarrow> nat \<Rightarrow> char option \<Rightarrow> string \<Rightarrow> nat list option" where
  "re_m ml [] pos prev rest = Some [pos]"
| "re_m ml (One k # its) pos prev [] = None"
| "re_m ml (One k # its) pos prev (c # cs) =
     (if cls_ok k c then re_m ml its (Suc pos) (Some c) cs else None)"
| "re_m ml (Star k # its) pos prev [] = re_m ml its pos prev []"
| "re_m ml (Star k # its) pos prev (c # cs) =
     (if cls_ok k c then
        (case re_m ml (Star k # its) (Suc pos) (Some c) cs of
           Some r \<Rightarrow> Some r
         | None \<Rightarrow> re_m ml its pos prev (c # cs))
      else re_m ml its pos prev (c # cs))"
| "re_m ml (Bol # its) pos prev rest =
     (if at_bol ml prev then re_m ml its pos prev rest else None)"
| "re_m ml (Eol # its) pos prev rest =
     (if at_eol ml rest then re_m ml its pos prev rest else None)"
| "re_m ml (Mark # its) pos prev rest = map_option (Cons pos) (re_m ml its pos prev rest)"

text \<open>
  Searching tries every start position from the left; the first position with a match
  wins. The start of the match is put in front of the positions.
\<close>

fun scan :: "bool \<Rightarrow> item list \<Rightarrow> nat \<Rightarrow> char option \<Rightarrow> string \<Rightarrow> nat list option" where
  "scan ml its pos prev [] = map_option (Cons pos) (re_m ml its pos prev [])"
| "scan ml its pos prev (c # cs) =
     (case re_m ml its pos prev (c # cs) of
        Some r \<Rightarrow> Some (pos # r)
      | None \<Rightarrow> scan ml its (Suc pos) (Some c) cs)"

text \<open>
  A match object: the searched string with the positions \<open>[start, p\<^sub>1, q\<^sub>1, \<dots>, end]\<close>,
  where group \<open>k\<close> spans from \<open>p\<^sub>k\<close> to \<open>q\<^sub>k\<close>.
\<close>

type_synonym rmatch = "string \<times> nat list"

definition re_search :: "bool \<Rightarrow> item list \<Rightarrow> string \<Rightarrow> rmatch option" where
  "re_search ml its txt = map_option (Pair txt) (scan ml its 0 None txt)"

definition re_match :: "bool \<Rightarrow> item list \<Rightarrow> string \<Rightarrow> rmatch option" where
  "re_match ml its txt = map_option (\<lambda>r. (txt, 0 # r)) (re_m ml its 0 None txt)"

definition slice :: "string \<Rightarrow> nat \<Rightarrow> nat \<Rightarrow> string" where
  "slice s i j = take (j - i) (drop i s)"

text \<open>\<open>m.group(k)\<close> for \<open>k \<ge> 1\<close>; every use below names a group of its pattern.\<close>

definition group :: "rmatch \<Rightarrow> nat \<Rightarrow> string" where
  "group m k = slice (fst m) (snd m ! (2 * k - 1)) (snd m ! (2 * k))"

text \<open>
  \<open>finditer\<close> yields the non-overlapping matches from the left: after a match the search
  goes on where the match ended. After an empty match the model goes on one character
  later; this is exact for a pattern that matches no empty string, as the one pattern used
  with \<open>finditer\<close> here.
\<close>

function finditer_from :: "bool \<Rightarrow> item list \<Rightarrow> nat \<Rightarrow> char option \<Rightarrow> string \<Rightarrow> nat list list" where
  "finditer_from ml its pos prev rest =
     (case scan ml its pos prev rest of
        None \<Rightarrow> []
      | Some r \<Rightarrow>
          (let n = (if last r = hd r then Suc (last r - pos) else last r - pos)
           in if 0 < n \<and> n \<le> length rest
              then r # finditer_from ml its (pos + n) (Some (last (take n rest))) (drop n rest)
              else [r]))"
  by pat_completeness auto
termination
  by (relation "measure (\<lambda>(ml, its, pos, prev, rest). length rest)") auto

definition finditer :: "bool \<Rightarrow> item list \<Rightarrow> string \<Rightarrow> rmatch list" where
  "finditer ml its txt = map (Pair txt) (finditer_from ml its 0 None txt)"

subsection \<open>Measures of a pattern\<close>

text \<open>
  The number of parentheses of a pattern, the least number of characters a match of it
  takes, and the calls of the matcher that start at or after a position \<open>lo\<close> of a text
  of length \<open>len\<close>.
\<close>

fun marks :: "item list \<Rightarrow> nat" where
  "marks [] = 0"
| "marks (Mark # its) = Suc (marks its)"
| "marks (i # its) = marks its"

fun width :: "item list \<Rightarrow> nat" where
  "width [] = 0"
| "width (One k # its) = Suc (width its)"
| "width (i # its) = width its"

definition reaches :: "bool \<Rightarrow> item list \<Rightarrow> nat \<Rightarrow> nat \<Rightarrow> nat list \<Rightarrow> bool" where
  "reaches ml its lo len r \<longleftrightarrow>
     (\<exists>pos prev rest. re_m ml its pos prev rest = Some r \<and> lo \<le> pos \<and> pos + length rest = len)"

section \<open>The identifier library\<close>

text \<open>
  The class \<open>Identifier\<close> of the module \<open>identifier\<close> is used, not defined, by the two
  source files. The fields read by them make up the record; the constructor, which may
  raise, is a parameter of every function that calls it.
\<close>

record Identifier =
  id' :: string
  idv :: string
  is_old_id :: bool
  archive :: string
  yymm :: string
  filename :: string
  version :: int

type_synonym resolver = "string \<Rightarrow> exn + Identifier"

text \<open>Python's \<open>str\<close> of an integer, as an f-string renders the field \<open>version\<close>.\<close>

fun str_nat :: "nat \<Rightarrow> string" where
  "str_nat n = (if n < 10 then [''0123456789'' ! n]
                else str_nat (n div 10) @ [''0123456789'' ! (n mod 10)])"

definition str_int :: "int \<Rightarrow> string" where
  "str_int i = (if i < 0 then CHR ''-'' # str_nat (nat (- i)) else str_nat (nat i))"

section \<open>The todo list (\<open>make_todos.py\<close>)\<close>

definition FTP_PREFIX :: string where
  "FTP_PREFIX = ''/data/ftp/''"

text \<open>An action is the tuple \<open>(subid, subtype, idv, operation, target)\<close>.\<close>

type_synonym action = "string \<times> string \<times> string \<times> string \<times> string"

definition act_subid :: "action \<Rightarrow> string" where
  "act_subid tt = (case tt of (subid, subtype, aidv, operation, target) \<Rightarrow> subid)"

definition act_subtype :: "action \<Rightarrow> string" where
  "act_subtype tt = (case tt of (subid, subtype, aidv, operation, target) \<Rightarrow> subtype)"

definition act_op :: "action \<Rightarrow> string" where
  "act_op tt = (case tt of (subid, subtype, aidv, operation, target) \<Rightarrow> operation)"

definition act_target :: "action \<Rightarrow> string" where
  "act_target tt = (case tt of (subid, subtype, aidv, operation, target) \<Rightarrow> target)"

subsection \<open>The patterns\<close>

definition new_r :: "item list" where
  "new_r = [Bol, Star Any] @ lit ('' new submission'' @ [NL]) @ [Star Any]
           @ lit '' paper_id: '' @ [Mark, Star Any, Mark, Eol]"

definition abs_r :: "item list" where
  "abs_r = [Bol, Star Any] @ lit '' absfile: '' @ [Mark, Star Any, Mark, Eol]"

definition src_pdf_r :: "item list" where
  "src_pdf_r = [Bol, Star Any] @ lit '' Document source: ''
               @ [Mark, Star Any, One Any] @ lit ''pdf'' @ [Mark, Eol]"

definition src_html_r :: "item list" where
  "src_html_r = [Bol, Star Any] @ lit '' Document source: ''
                @ [Mark, Star Any, One Any] @ lit ''html'' @ [One Any] @ lit ''gz'' @ [Mark, Eol]"

definition src_tex_r :: "item list" where
  "src_tex_r = [Bol, Star Any] @ lit '' Document source: ''
               @ [Mark, Star Any, One Any] @ lit ''gz'' @ [Mark, Eol]"

definition versions_r :: "item list" where
  "versions_r = lit [NL] @ [Star Any] @ lit [NL] @ [Star Any] @ lit '' old version: ''
                @ [Mark, Star Digit, Mark] @ lit [NL] @ [Star Any] @ lit '' new version: ''
                @ [Mark, Star Digit, Mark]"

definition rep_r :: "item list" where
  "rep_r = [Bol, Star Any] @ lit '' replacement for '' @ [Mark, Star Any, Mark] @ versions_r"

definition wdr_r :: "item list" where
  "wdr_r = [Bol, Star Any] @ lit '' withdrawal of '' @ [Mark, Star Any, Mark] @ versions_r"

definition cross_r :: "item list" where
  "cross_r = lit '' cross for '' @ [Mark, Star Any, Mark]"

definition jref_r :: "item list" where
  "jref_r = lit '' journal ref for '' @ [Mark, Star Any, Mark]"

definition test_r :: "item list" where
  "test_r = lit '' Test Submission. Skipping.''"

definition move_r :: "item list" where
  "move_r = [Bol, Star Any] @ lit '' Moved '' @ [Mark, Star Any, Mark] @ lit '' => ''
            @ [Mark, Star Any, Mark, Eol]"

definition sub_start_r :: "item list" where
  "sub_start_r = [Star Any] @ lit '' submission '' @ [Mark, Star Digit, Mark, Eol]"

definition sub_end_r :: "item list" where
  "sub_end_r = [Star Any] @ lit ''Finished processing submission ''"

subsection \<open>The actions of one submission\<close>

definition upload_abs_acts :: "string \<Rightarrow> Identifier \<Rightarrow> string \<Rightarrow> action list" where
  "upload_abs_acts subid arxiv_id subtype =
     (let archive' = (if \<not> is_old_id arxiv_id then ''arxiv'' else archive arxiv_id)
      in [(subid, subtype, idv arxiv_id, ''upload'',
           FTP_PREFIX @ ''/'' @ archive' @ ''/papers/'' @ yymm arxiv_id @ ''/''
             @ filename arxiv_id @ ''.abs'')])"

text \<open>The message logged when no source is found is not part of the result.\<close>

definition upload_abs_src_acts :: "string \<Rightarrow> Identifier \<Rightarrow> string \<Rightarrow> string \<Rightarrow> action list" where
  "upload_abs_src_acts subid arxiv_id subtype txt =
     (let absm = re_search True abs_r txt;
          pdfm = re_search True src_pdf_r txt;
          texm = re_search True src_tex_r txt;
          htmlm = re_search True src_html_r txt;
          actions = (case absm of
                       Some m \<Rightarrow> [(subid, subtype, idv arxiv_id, ''upload'', group m 1)]
                     | None \<Rightarrow> [])
      in case pdfm of
           Some m \<Rightarrow> actions @ [(subid, subtype, idv arxiv_id, ''upload'', group m 1)]
         | None \<Rightarrow>
        (case htmlm of
           Some m \<Rightarrow> actions @ [(subid, subtype, idv arxiv_id, ''upload'', group m 1)]
         | None \<Rightarrow>
        (case texm of
           Some m \<Rightarrow> actions @ [(subid, subtype, idv arxiv_id, ''upload'', group m 1)]
                       @ [(subid, subtype, idv arxiv_id, ''build+upload'',
                           id' arxiv_id @ ''v'' @ str_int (version arxiv_id))]
         | None \<Rightarrow> actions)))"

definition rep_version_acts :: "string \<Rightarrow> Identifier \<Rightarrow> string \<Rightarrow> string \<Rightarrow> action list" where
  "rep_version_acts subid arxiv_id subtype txt =
     map (\<lambda>m. (subid, subtype, idv arxiv_id, ''upload'', group m 2)) (finditer True move_r txt)"

subsection \<open>Reading the log\<close>

text \<open>
  \<open>fh.readlines()\<close>: the lines of the text, each with its newline; the last line has none
  when the text does not end with one. The text is the file as Python decodes it, every
  line ending already translated to the newline.
\<close>

fun lines_from :: "string \<Rightarrow> string \<Rightarrow> string list" where
  "lines_from cur [] = (if cur = [] then [] else [cur])"
| "lines_from cur (c # cs) =
     (if c = NL then (cur @ [c]) # lines_from [] cs else lines_from (cur @ [c]) cs)"

definition readlines :: "string \<Rightarrow> string list" where
  "readlines content = lines_from [] content"

text \<open>
  The first loop of \<open>make_todos\<close>, with its four variables \<open>subs\<close>, \<open>in_sub\<close>, \<open>txt\<close> and
  \<open>sm\<close> as the state.
\<close>

type_synonym sub = "string \<times> string"

type_synonym seg_state = "sub list \<times> bool \<times> string \<times> rmatch option"

definition seg_step :: "seg_state \<Rightarrow> string \<Rightarrow> seg_state" where
  "seg_step st line =
     (case st of (subs, in_sub, txt, sm) \<Rightarrow>
        if in_sub then
          (case sm of
             Some m \<Rightarrow>
               if re_match False sub_end_r line \<noteq> None
               then (subs @ [(group m 1, txt @ line)], False, [], None)
               else (subs, in_sub, txt @ line, sm)
           | None \<Rightarrow> (subs, in_sub, txt @ line, sm))
        else
          (let sm' = re_match False sub_start_r line
           in if sm' \<noteq> None then (subs, True, txt, sm') else (subs, in_sub, txt, sm')))"

fun seg_loop :: "string list \<Rightarrow> seg_state \<Rightarrow> seg_state" where
  "seg_loop [] st = st"
| "seg_loop (line # rest) st = seg_loop rest (seg_step st line)"

definition read_subs :: "string list \<Rightarrow> sub list" where
  "read_subs ls = fst (seg_loop ls ([], False, [], None))"

text \<open>The start and end lines of a submission, as the first loop tests them.\<close>

definition is_start :: "string \<Rightarrow> bool" where
  "is_start line \<longleftrightarrow> re_match False sub_start_r line \<noteq> None"

definition is_end :: "string \<Rightarrow> bool" where
  "is_end line \<longleftrightarrow> re_match False sub_end_r line \<noteq> None"

subsection \<open>The second loop\<close>

text \<open>
  The body of the loop over \<open>subs\<close>: the actions that one submission adds to \<open>todo\<close>, or
  the exception of the constructor \<open>Identifier\<close>. Each \<open>continue\<close> ends the body.
\<close>

definition sub_todos :: "resolver \<Rightarrow> sub \<Rightarrow> exn + action list" where
  "sub_todos Identifier' s =
     (case s of (subid, txt) \<Rightarrow>
      (case re_search False test_r txt of Some m \<Rightarrow> Inr [] | None \<Rightarrow>
      (case re_search True new_r txt of
         Some m \<Rightarrow>
           (case Identifier' (group m 1 @ ''v1'') of
              Inl e \<Rightarrow> Inl e
            | Inr arxiv_id \<Rightarrow> Inr (upload_abs_src_acts subid arxiv_id ''new'' txt))
       | None \<Rightarrow>
      (case re_search True rep_r txt of
         Some m \<Rightarrow>
           (case Identifier' (group m 1 @ ''v'' @ group m 3) of
              Inl e \<Rightarrow> Inl e
            | Inr arxiv_id \<Rightarrow>
                Inr (rep_version_acts subid arxiv_id ''rep'' txt
                     @ upload_abs_src_acts subid arxiv_id ''rep'' txt))
       | None \<Rightarrow>
      (case re_search True wdr_r txt of
         Some m \<Rightarrow>
           (case Identifier' (group m 1 @ ''v'' @ group m 3) of
              Inl e \<Rightarrow> Inl e
            | Inr arxiv_id \<Rightarrow>
                Inr (filter (\<lambda>tt. act_op tt \<noteq> ''build+upload'')
                       (rep_version_acts subid arxiv_id ''wdr'' txt
                        @ upload_abs_src_acts subid arxiv_id ''wdr'' txt)))
       | None \<Rightarrow>
      (case re_search False cross_r txt of
         Some m \<Rightarrow>
           (case Identifier' (group m 1) of
              Inl e \<Rightarrow> Inl e
            | Inr arxiv_id \<Rightarrow> Inr (upload_abs_acts subid arxiv_id ''cross''))
       | None \<Rightarrow>
      (case re_search False jref_r txt of
         Some m \<Rightarrow>
           (case Identifier' (group m 1) of
              Inl e \<Rightarrow> Inl e
            | Inr arxiv_id \<Rightarrow> Inr (upload_abs_acts subid arxiv_id ''jref''))
       | None \<Rightarrow> Inr [])))))))"

fun todo_loop :: "resolver \<Rightarrow> sub list \<Rightarrow> action list \<Rightarrow> exn + action list" where
  "todo_loop Identifier' [] todo = Inr todo"
| "todo_loop Identifier' (s # ss) todo =
     (case sub_todos Identifier' s of
        Inl e \<Rightarrow> Inl e
      | Inr acts \<Rightarrow> todo_loop Identifier' ss (todo @ acts))"

text \<open>
  \<open>make_todos\<close>: the file system is a map from file names to the decoded text of the
  file; opening a file that is not there raises.
\<close>

definition make_todos :: "resolver \<Rightarrow> (string \<rightharpoonup> string) \<Rightarrow> string \<Rightarrow> exn + action list" where
  "make_todos Identifier' files fname =
     (case files fname of
        None \<Rightarrow> Inl (FileNotFoundError fname)
      | Some content \<Rightarrow> todo_loop Identifier' (read_subs (readlines content)) [])"

section \<open>Uploading to the bucket (\<open>sync_published_to_gcp.py\<close>)\<close>

subsection \<open>\<open>pathlib.Path\<close>\<close>

text \<open>
  A \<open>Path\<close> object is modelled by its string. The constructor drops empty components,
  components \<open>.\<close> and a trailing slash; it keeps a leading slash, and two leading
  slashes when there are exactly two. The empty path is \<open>.\<close>.
\<close>

fun split_from :: "string \<Rightarrow> string \<Rightarrow> string list" where
  "split_from cur [] = [cur]"
| "split_from cur (c # cs) =
     (if c = CHR ''/'' then cur # split_from [] cs else split_from (cur @ [c]) cs)"

fun join :: "string list \<Rightarrow> string" where
  "join [] = []"
| "join [p] = p"
| "join (p # q # ps) = p @ ''/'' @ join (q # ps)"

definition Path :: "string \<Rightarrow> string" where
  "Path s =
     (let root = (if startswith s ''//'' \<and> \<not> startswith s ''///'' then ''//''
                  else if startswith s ''/'' then ''/'' else []);
          parts = filter (\<lambda>p. p \<noteq> [] \<and> p \<noteq> ''.'') (split_from [] s)
      in if root = [] \<and> parts = [] then ''.'' else root @ join parts)"

text \<open>
  \<open>filepath.suffix\<close>: the part of the last component from its last dot on, when that
  dot is neither the first nor the last character of the component.
\<close>

definition suffix' :: "string \<Rightarrow> string" where
  "suffix' filepath =
     (let name = last (split_from [] filepath);
          ext = rev (takeWhile (\<lambda>c. c \<noteq> CHR ''.'') (rev name))
      in if CHR ''.'' \<in> set name \<and> ext \<noteq> [] \<and> Suc (length ext) < length name
         then CHR ''.'' # ext else [])"

definition mime_from_fname :: "string \<Rightarrow> string" where
  "mime_from_fname filepath =
     (if suffix' filepath = ''.pdf'' then ''application/pdf''
      else if suffix' filepath = ''.gz'' then ''application/gzip''
      else if suffix' filepath = ''.abs'' then ''text/plain''
      else [])"

subsection \<open>The bucket and the local files\<close>

text \<open>
  The state of the bucket \<open>GS_BUCKET\<close> behind the client: the stored objects, and the
  calls made so far. The size of an object is the length of its data. The local file
  system maps a path to the bytes of the file.
\<close>

record blob =
  blob_data :: string
  content_type :: string

datatype gs_call = GetBlob string | UploadFromFile string string string

record gs =
  blobs :: "string \<rightharpoonup> blob"
  calls :: "gs_call list"

definition UPLOAD_RETRYS :: nat where
  "UPLOAD_RETRYS = 4"

text \<open>
  One attempt of \<open>upload\<close>. \<open>stat\<close> and \<open>open\<close> raise for a file that is not there; the
  first of them that is reached raises, after the call of \<open>get_blob\<close>.
\<close>

definition upload_attempt ::
  "(string \<rightharpoonup> string) \<Rightarrow> string \<Rightarrow> string \<Rightarrow> gs \<Rightarrow> (exn + string \<times> nat) \<times> gs" where
  "upload_attempt files localpath key gs_client =
     (let g = gs_client\<lparr>calls := calls gs_client @ [GetBlob key]\<rparr>;
          blob = blobs gs_client key
      in case files localpath of
           None \<Rightarrow> (Inl (FileNotFoundError localpath), g)
         | Some bytes \<Rightarrow>
             if blob = None \<or> length (blob_data (the blob)) \<noteq> length bytes
             then (Inr (''uploaded'', length bytes),
                   g\<lparr>blobs := (blobs g)(key \<mapsto>
                        \<lparr>blob_data = bytes, content_type = mime_from_fname localpath\<rparr>),
                     calls := calls g @ [UploadFromFile key bytes (mime_from_fname localpath)]\<rparr>)
             else (Inr (''already_on_gs'', 0), g))"

text \<open>
  The decorator \<open>retry\<close> with \<open>stop_after_attempt n\<close> and \<open>reraise\<close>: a failed attempt is
  repeated until the \<open>n\<close>-th attempt has failed, whose exception is raised.
\<close>

fun retry :: "nat \<Rightarrow> ('s \<Rightarrow> (exn + 'a) \<times> 's) \<Rightarrow> 's \<Rightarrow> (exn + 'a) \<times> 's" where
  "retry 0 f s = f s"
| "retry (Suc n) f s =
     (case f s of
        (Inr r, s') \<Rightarrow> (Inr r, s')
      | (Inl e, s') \<Rightarrow> if n = 0 then (Inl e, s') else retry n f s')"

definition upload ::
  "(string \<rightharpoonup> string) \<Rightarrow> gs \<Rightarrow> string \<Rightarrow> string \<Rightarrow> (exn + string \<times> nat) \<times> gs" where
  "upload files gs_client localpath key =
     retry UPLOAD_RETRYS (upload_attempt files localpath key) gs_client"

definition transfers :: "gs \<Rightarrow> gs_call list" where
  "transfers g = filter (\<lambda>c. case c of GetBlob k \<Rightarrow> False | UploadFromFile k d t \<Rightarrow> True) (calls g)"

section \<open>Ensuring the PDF (\<open>sync_published_to_gcp.py\<close>)\<close>

definition PS_CACHE_PREFIX :: string where
  "PS_CACHE_PREFIX = ''/cache/ps_cache/''"

definition ENSURE_UA :: string where
  "ENSURE_UA = ''periodic-rebuild''"

definition PDF_WAIT_SEC :: real where
  "PDF_WAIT_SEC = 60 * 10"

text \<open>
  The world outside the program: what the \<open>k\<close>-th call of \<open>exists\<close> answers for a path,
  the status (or the exception) of the \<open>k\<close>-th request, how much longer than asked the
  \<open>k\<close>-th \<open>sleep\<close> lasts, and how long the \<open>k\<close>-th call of \<open>exists\<close> and the \<open>k\<close>-th
  request last. Time is a real number of seconds; \<open>perf_counter\<close> reads it, and a call of
  \<open>exists\<close>, a request and a \<open>sleep\<close> move it.

  The floating-point arithmetic of \<open>ms_since\<close> is not modelled: for the readings \<open>t\<close> and
  \<open>start\<close> of the clock, \<open>msec w t start\<close> is the integer that the machine computes for
  \<open>int((t - start) * 1000)\<close>.
\<close>

record world =
  present :: "nat \<Rightarrow> string \<Rightarrow> bool"
  get_status :: "nat \<Rightarrow> string \<Rightarrow> exn + nat"
  lag :: "nat \<Rightarrow> real"
  exists_time :: "nat \<Rightarrow> real"
  get_time :: "nat \<Rightarrow> real"
  msec :: "real \<Rightarrow> real \<Rightarrow> int"

record run =
  now :: real
  checks :: nat
  sleeps :: nat
  requests :: "(string \<times> string) list"

definition exists' :: "world \<Rightarrow> string \<Rightarrow> run \<Rightarrow> bool \<times> run" where
  "exists' w p s =
     (present w (checks s) p,
      s\<lparr>now := now s + exists_time w (checks s), checks := Suc (checks s)\<rparr>)"

definition sleep :: "world \<Rightarrow> real \<Rightarrow> run \<Rightarrow> run" where
  "sleep w d s = s\<lparr>now := now s + d + lag w (sleeps s), sleeps := Suc (sleeps s)\<rparr>"

definition session_get :: "world \<Rightarrow> string \<Rightarrow> string \<Rightarrow> run \<Rightarrow> (exn + nat) \<times> run" where
  "session_get w url ua s =
     (get_status w (length (requests s)) url,
      s\<lparr>now := now s + get_time w (length (requests s)),
        requests := requests s @ [(url, ua)]\<rparr>)"

definition ms_since :: "world \<Rightarrow> run \<Rightarrow> real \<Rightarrow> int" where
  "ms_since w s start = msec w (now s) start"

definition pdf_cache_path :: "Identifier \<Rightarrow> string" where
  "pdf_cache_path arxiv_id =
     (let archive' = (if \<not> is_old_id arxiv_id then ''arxiv'' else archive arxiv_id)
      in Path (PS_CACHE_PREFIX @ ''/'' @ archive' @ ''/pdf/'' @ yymm arxiv_id @ ''/''
               @ filename arxiv_id @ ''v'' @ str_int (version arxiv_id) @ ''.pdf''))"

definition arxiv_pdf_url :: "string \<Rightarrow> Identifier \<Rightarrow> string" where
  "arxiv_pdf_url host arxiv_id =
     ''https://'' @ host @ ''/pdf/'' @ filename arxiv_id @ ''v''
       @ str_int (version arxiv_id) @ ''.pdf?nocdn=1''"

text \<open>
  The loop \<open>while not pdf_file.exists()\<close>. It may run forever, so its result is an
  option: \<open>None\<close> when it does not return.
\<close>

partial_function (option) wait_for_pdf ::
  "world \<Rightarrow> string \<Rightarrow> string \<Rightarrow> real \<Rightarrow> run \<Rightarrow> ((exn + unit) \<times> run) option" where
  "wait_for_pdf w pdf_file url start_wait s =
     (if fst (exists' w pdf_file s) then Some (Inr (), snd (exists' w pdf_file s))
      else if now (snd (exists' w pdf_file s)) - start_wait > PDF_WAIT_SEC
      then Some (Inl (EnsurePdfException (''No PDF, waited longer than 600 sec '' @ url)),
                 snd (exists' w pdf_file s))
      else wait_for_pdf w pdf_file url start_wait (sleep w 0.2 (snd (exists' w pdf_file s))))"

declare wait_for_pdf.simps [code]

text \<open>The result tuple is \<open>(pdf_file, url, status, msec)\<close>; the status may be \<open>None\<close>.\<close>

type_synonym ensured = "string \<times> string \<times> string option \<times> int"

definition ensure_pdf :: "world \<Rightarrow> string \<Rightarrow> Identifier \<Rightarrow> run \<Rightarrow> ((exn + ensured) \<times> run) option" where
  "ensure_pdf w host arxiv_id s =
     (let pdf_file = pdf_cache_path arxiv_id;
          url = arxiv_pdf_url host arxiv_id;
          start = now s;
          s1 = snd (exists' w pdf_file s)
      in if \<not> fst (exists' w pdf_file s) then
           (let s2 = snd (session_get w url ENSURE_UA s1)
            in case fst (session_get w url ENSURE_UA s1) of
                 Inl e \<Rightarrow> Some (Inl e, s2)
               | Inr status_code \<Rightarrow>
                   if status_code \<noteq> 200
                   then Some (Inl (EnsurePdfException
                          (''ensure_pdf: GET status '' @ str_nat status_code @ '' '' @ url)), s2)
                   else
                     (case wait_for_pdf w pdf_file url (now s2) s2 of
                        None \<Rightarrow> None
                      | Some (Inl e, s3) \<Rightarrow> Some (Inl e, s3)
                      | Some (Inr u, s3) \<Rightarrow>
                          (let s4 = snd (exists' w pdf_file s3)
                           in if fst (exists' w pdf_file s3)
                              then Some (Inr (pdf_file, url, None, ms_since w s4 start), s4)
                              else Some (Inl (EnsurePdfException
                                     (''ensure_pdf: Could not create '' @ pdf_file @ ''. '' @ url
                                      @ '' waited '' @ str_int (ms_since w s4 start) @ '' ms'')), s4))))
         else Some (Inr (pdf_file, url, Some ''already exists'', ms_since w s1 start), s1))"

section \<open>Blocks with an empty capture\<close>

text \<open>
  For the statement about empty targets: whether the first \<open>absfile\<close> line of a text
  names no file, whether a \<open>Moved\<close> line of it names no destination, and whether a block
  is one that \<open>make_todos\<close> handles as a new submission, a replacement or a withdrawal
  (it has no test marker, and the pattern is the first of the three that matches).
\<close>

definition abs_empty :: "string \<Rightarrow> bool" where
  "abs_empty txt = (case re_search True abs_r txt of Some m \<Rightarrow> group m 1 = [] | None \<Rightarrow> False)"

definition moved_empty :: "string \<Rightarrow> bool" where
  "moved_empty txt = list_ex (\<lambda>m. group m 2 = []) (finditer True move_r txt)"

definition block_subtype :: "string \<Rightarrow> string option" where
  "block_subtype txt =
     (if re_search False test_r txt \<noteq> None then None
      else if re_search True new_r txt \<noteq> None then Some ''new''
      else if re_search True rep_r txt \<noteq> None then Some ''rep''
      else if re_search True wdr_r txt \<noteq> None then Some ''wdr''
      else None)"

text \<open>
  The blocks for which an action with an empty target is emitted: a new submission, a
  replacement or a withdrawal whose \<open>absfile\<close> line names no file, and a replacement or a
  withdrawal with a \<open>Moved\<close> line that names no destination.
\<close>

definition empty_target_block :: "string \<Rightarrow> bool" where
  "empty_target_block txt =
     (case block_subtype txt of
        None \<Rightarrow> False
      | Some k \<Rightarrow> abs_empty txt \<or> (k \<noteq> ''new'' \<and> moved_empty txt))"

section \<open>A resolver and logs for concrete runs\<close>

text \<open>The number written by a string of decimal digits.\<close>

definition nat_of_digits :: "string \<Rightarrow> nat" where
  "nat_of_digits ds = foldl (\<lambda>n c. 10 * n + (of_char c - 48)) 0 ds"

text \<open>
  Modelled from the spec: the class \<open>Identifier\<close>, which is not among the source files.
  The spec's IdentifierResolver takes a string of the form \<open>base\<close> or \<open>basevN\<close>, tells the
  legacy scheme (which carries its own archive name, before a slash) from the modern one,
  and derives the year-month bucket and the file name from the base identifier. A string
  without a file name is rejected.
\<close>

definition spec_Identifier :: resolver where
  "spec_Identifier s =
     (let digits = rev (takeWhile (cls_ok Digit) (rev s));
          front = take (length s - length digits) s;
          versioned = (digits \<noteq> [] \<and> front \<noteq> [] \<and> last front = CHR ''v'');
          base = (if versioned then butlast front else s);
          old = (CHR ''/'' \<in> set base);
          fname = (if old then drop 1 (dropWhile (\<lambda>c. c \<noteq> CHR ''/'') base) else base);
          ver = (if versioned then int (nat_of_digits digits) else 0)
      in if fname = [] then Inl (IdentifierException s)
         else Inr \<lparr> id' = base,
                    idv = (if versioned then base @ ''v'' @ str_int ver else base),
                    is_old_id = old,
                    archive = (if old then takeWhile (\<lambda>c. c \<noteq> CHR ''/'') base else ''arxiv''),
                    yymm = take 4 fname,
                    filename = fname,
                    version = ver \<rparr>)"

definition unlines :: "string list \<Rightarrow> string" where
  "unlines ls = concat (map (\<lambda>l. l @ [NL]) ls)"

subsection \<open>Logs\<close>

text \<open>A withdrawal whose source is a compressed file, with a moved abstract.\<close>

definition block_wdr :: string where
  "block_wdr = unlines [
     ''12:00 withdrawal of 2201.00003'',
     ''12:00 checking'',
     ''12:00 old version: 1'',
     ''12:00 new version: 2'',
     ''12:00 Moved /data/new/2201.00003.abs => /data/ftp/arxiv/papers/2201/2201.00003.abs'',
     ''12:00 absfile: /data/ftp/arxiv/papers/2201/2201.00003.abs'',
     ''12:00 Document source: /data/ftp/arxiv/papers/2201/2201.00003.tar.gz'',
     ''12:01 Finished processing submission 4003'']"

definition log_wdr :: string where
  "log_wdr = unlines [''12:00 submission 4003''] @ block_wdr"

definition todo_wdr :: "action list" where
  "todo_wdr =
     [(''4003'', ''wdr'', ''2201.00003v2'', ''upload'', ''/data/ftp/arxiv/papers/2201/2201.00003.abs''),
      (''4003'', ''wdr'', ''2201.00003v2'', ''upload'', ''/data/ftp/arxiv/papers/2201/2201.00003.abs''),
      (''4003'', ''wdr'', ''2201.00003v2'', ''upload'', ''/data/ftp/arxiv/papers/2201/2201.00003.tar.gz'')]"

text \<open>A new submission whose \<open>absfile\<close> line names no file.\<close>

definition log_empty_abs :: string where
  "log_empty_abs = unlines [
     ''12:00 submission 4002'',
     ''12:00 new submission'',
     ''12:00 paper_id: 2201.00002'',
     ''12:00 absfile: '',
     ''12:00 Document source: /data/new/2201.00002.pdf'',
     ''12:01 Finished processing submission 4002'']"

text \<open>
  A new submission with a \<open>Moved\<close> line that names no destination; the line is not read
  for a new submission. Its source is a compressed file, so the paper is built.
\<close>

definition block_new_moved :: string where
  "block_new_moved = unlines [
     ''12:00 new submission'',
     ''12:00 paper_id: 2201.00004'',
     ''12:00 Moved /data/new/4.abs => '',
     ''12:00 absfile: /data/new/4.abs'',
     ''12:00 Document source: /data/new/4.tar.gz'',
     ''12:01 Finished processing submission 4004'']"

text \<open>A log of two submissions: that new submission, and a cross-listing.\<close>

definition block_cross_4005 :: string where
  "block_cross_4005 = unlines [
     ''12:02 cross for hep-th/9901001v2'',
     ''12:03 Finished processing submission 4005'']"

definition log_new_moved :: string where
  "log_new_moved = unlines [''12:00 submission 4004''] @ block_new_moved
                   @ unlines [''12:02 submission 4005''] @ block_cross_4005"

definition todo_new_moved :: "action list" where
  "todo_new_moved =
     [(''4004'', ''new'', ''2201.00004v1'', ''upload'', ''/data/new/4.abs''),
      (''4004'', ''new'', ''2201.00004v1'', ''upload'', ''/data/new/4.tar.gz''),
      (''4004'', ''new'', ''2201.00004v1'', ''build+upload'', ''2201.00004v1''),
      (''4005'', ''cross'', ''hep-th/9901001v2'', ''upload'',
       ''/data/ftp//hep-th/papers/9901/9901001.abs'')]"

definition todo_empty_abs :: "action list" where
  "todo_empty_abs =
     [(''4002'', ''new'', ''2201.00002v1'', ''upload'', []),
      (''4002'', ''new'', ''2201.00002v1'', ''upload'', ''/data/new/2201.00002.pdf'')]"

definition block_empty_abs :: string where
  "block_empty_abs = unlines [
     ''12:00 new submission'',
     ''12:00 paper_id: 2201.00002'',
     ''12:00 absfile: '',
     ''12:00 Document source: /data/new/2201.00002.pdf'',
     ''12:01 Finished processing submission 4002'']"

text \<open>Blocks of one submission each: the text after the start line, up to the end line.\<close>

definition block_test :: string where
  "block_test = unlines [
     ''12:00 new submission'',
     ''12:00 paper_id: 2201.00001'',
     ''12:00 Test Submission. Skipping.'',
     ''12:01 Finished processing submission 4001'']"

definition block_new :: string where
  "block_new = unlines [
     ''12:00 new submission'',
     ''12:00 paper_id: 2201.00001'',
     ''12:00 absfile: /data/new/1.abs'',
     ''12:00 Document source: /data/new/1.tar.gz'',
     ''12:01 Finished processing submission 4001'']"

definition block_rep :: string where
  "block_rep = unlines [
     ''12:00 replacement for 2201.00001'',
     ''12:00 checking'',
     ''12:00 old version: 1'',
     ''12:00 new version: 2'',
     ''12:00 Moved /data/new/1.abs => /data/ftp/1.abs'',
     ''12:00 Document source: /data/ftp/1.html.gz'',
     ''12:01 Finished processing submission 4001'']"

definition block_cross :: string where
  "block_cross = unlines [
     ''12:00 cross for hep-th/9901001v2'',
     ''12:01 Finished processing submission 4005'']"

definition block_jref :: string where
  "block_jref = unlines [
     ''12:00 journal ref for 2201.00001v3'',
     ''12:01 Finished processing submission 4006'']"

definition block_other :: string where
  "block_other = unlines [
     ''12:00 nothing to publish'',
     ''12:01 Finished processing submission 4007'']"

definition block_pdf :: string where
  "block_pdf = unlines [
     ''12:00 new submission'',
     ''12:00 paper_id: 2201.00001'',
     ''12:00 absfile: /data/new/1.abs'',
     ''12:00 Document source: /data/new/1.pdf'',
     ''12:01 Finished processing submission 4001'']"

text \<open>An identifier as the resolver returns it for \<open>2201.00001v1\<close>.\<close>

definition id_2201 :: Identifier where
  "id_2201 = \<lparr> id' = ''2201.00001'', idv = ''2201.00001v1'', is_old_id = False,
               archive = ''arxiv'', yymm = ''2201'', filename = ''2201.00001'', version = 1 \<rparr>"

subsection \<open>Files, buckets and worlds\<close>

text \<open>A cache with one rendered file, and a bucket without objects.\<close>

definition files_pdf :: "string \<rightharpoonup> string" where
  "files_pdf = [''/cache/ps_cache/arxiv/pdf/2201/2201.00001v1.pdf'' \<mapsto> ''%PDF-1.5'']"

definition gs_empty :: gs where
  "gs_empty = \<lparr>blobs = Map.empty, calls = []\<rparr>"

text \<open>
  A world in which every file is there, one in which no file ever is and every \<open>sleep\<close>
  lasts 1000 seconds too long, one in which a file is there from the third check on, and
  the state of a run at its start. In each of them a call of \<open>exists\<close> and a request take
  some time, and \<open>msec\<close> rounds the exact product down.
\<close>

definition world_cached :: world where
  "world_cached = \<lparr>present = (\<lambda>k p. True), get_status = (\<lambda>k url. Inr 200), lag = (\<lambda>k. 0),
                    exists_time = (\<lambda>k. 0.05), get_time = (\<lambda>k. 1),
                    msec = (\<lambda>t start. \<lfloor>(t - start) * 1000\<rfloor>)\<rparr>"



definition run0 :: run where
  "run0 = \<lparr>now = 0, checks = 0, sleeps = 0, requests = []\<rparr>"

section \<open>Properties\<close>

subsection \<open>The object key\<close>

text \<open>
  Claim C2. For a path that starts with \<open>/cache/\<close> or \<open>/data/\<close> the key should be the path
  without that leading root, the rest unchanged. The code removes every occurrence of the
  root, so a path with a second occurrence loses it as well: the key of
  \<open>/data/ftp/data/papers/2201/2201.00001.abs\<close> is \<open>ftppapers/2201/2201.00001.abs\<close>, not
  the rest \<open>ftp/data/papers/2201/2201.00001.abs\<close> of the path.
\<close>

theorem path_to_bucket_key_removes_inner_root:
  "path_to_bucket_key ''/data/ftp/data/papers/2201/2201.00001.abs''
     = Inr ''ftppapers/2201/2201.00001.abs''
   \<and> drop (length ''/data/'') ''/data/ftp/data/papers/2201/2201.00001.abs''
     = ''ftp/data/papers/2201/2201.00001.abs''"
  by code_simp

subsection \<open>The matcher\<close>

lemma marks_append: "marks (xs @ ys) = marks xs + marks ys"
  by (induction xs rule: marks.induct) auto

lemma width_append: "width (xs @ ys) = width xs + width ys"
  by (induction xs rule: width.induct) auto

lemma marks_lit: "marks (lit s) = 0"
  by (induction s) (auto simp: lit_def)

lemma width_lit: "width (lit s) = length s"
  by (induction s) (auto simp: lit_def)

lemma reaches_mono: "reaches ml its lo len r \<Longrightarrow> lo' \<le> lo \<Longrightarrow> reaches ml its lo' len r"
  unfolding reaches_def using le_trans by blast

lemma re_m_split:
  "re_m ml (its1 @ its2) pos prev rest = Some r \<Longrightarrow>
     \<exists>r1 r2. r = r1 @ r2 \<and> length r1 = marks its1 \<and> (\<forall>x\<in>set r1. pos \<le> x)
        \<and> reaches ml its2 (pos + width its1) (pos + length rest) r2"
proof (induction its1 arbitrary: pos prev rest r)
  case Nil
  then show ?case by (auto simp: reaches_def)
next
  case (Cons i its1)
  show ?case
  proof (cases i)
    case (One k)
    with Cons.prems obtain c cs where rest: "rest = c # cs" and ok: "cls_ok k c"
      and m: "re_m ml (its1 @ its2) (Suc pos) (Some c) cs = Some r"
      by (cases rest) (auto split: if_splits)
    from Cons.IH[OF m] obtain r1 r2 where
      "r = r1 @ r2" "length r1 = marks its1" "\<forall>x\<in>set r1. Suc pos \<le> x"
      "reaches ml its2 (Suc pos + width its1) (Suc pos + length cs) r2" by blast
    then have "r = r1 @ r2 \<and> length r1 = marks (i # its1) \<and> (\<forall>x\<in>set r1. pos \<le> x)
        \<and> reaches ml its2 (pos + width (i # its1)) (pos + length rest) r2"
      using One rest by (auto simp: Suc_leD)
    then show ?thesis by blast
  next
    case (Star k)
    have "re_m ml (Star k # its1 @ its2) pos prev rest = Some r \<Longrightarrow>
       \<exists>r1 r2. r = r1 @ r2 \<and> length r1 = marks its1 \<and> (\<forall>x\<in>set r1. pos \<le> x)
        \<and> reaches ml its2 (pos + width its1) (pos + length rest) r2"
    proof (induction rest arbitrary: pos prev)
      case Nil
      then have "re_m ml (its1 @ its2) pos prev [] = Some r" by simp
      from Cons.IH[OF this] show ?case by simp
    next
      case (Cons c cs)
      show ?case
      proof (cases "cls_ok k c \<and> re_m ml (Star k # its1 @ its2) (Suc pos) (Some c) cs \<noteq> None")
        case True
        with Cons.prems have "re_m ml (Star k # its1 @ its2) (Suc pos) (Some c) cs = Some r"
          by (auto split: option.splits)
        from Cons.IH[OF this] obtain r1 r2 where
          "r = r1 @ r2" "length r1 = marks its1" "\<forall>x\<in>set r1. Suc pos \<le> x"
          "reaches ml its2 (Suc pos + width its1) (Suc pos + length cs) r2" by blast
        from reaches_mono[OF this(4), of "pos + width its1"] this(1-3)
        have "r = r1 @ r2 \<and> length r1 = marks its1 \<and> (\<forall>x\<in>set r1. pos \<le> x)
          \<and> reaches ml its2 (pos + width its1) (pos + length (c # cs)) r2"
          by (auto simp: Suc_leD)
        then show ?thesis by blast
      next
        case False
        with Cons.prems have "re_m ml (its1 @ its2) pos prev (c # cs) = Some r"
          by (auto split: option.splits if_splits)
        from \<open>\<And>pos prev rest r. re_m ml (its1 @ its2) pos prev rest = Some r \<Longrightarrow> _\<close>[OF this]
        show ?thesis by simp
      qed
    qed
    with Cons.prems Star show ?thesis by simp
  next
    case Bol
    with Cons.prems have "re_m ml (its1 @ its2) pos prev rest = Some r"
      by (auto split: if_splits)
    from Cons.IH[OF this] show ?thesis using Bol by simp
  next
    case Eol
    with Cons.prems have "re_m ml (its1 @ its2) pos prev rest = Some r"
      by (auto split: if_splits)
    from Cons.IH[OF this] show ?thesis using Eol by simp
  next
    case Mark
    with Cons.prems obtain r' where r: "r = pos # r'"
      and m: "re_m ml (its1 @ its2) pos prev rest = Some r'"
      by auto
    from Cons.IH[OF m] obtain r1 r2 where
      "r' = r1 @ r2" "length r1 = marks its1" "\<forall>x\<in>set r1. pos \<le> x"
      "reaches ml its2 (pos + width its1) (pos + length rest) r2" by blast
    then have "r = (pos # r1) @ r2 \<and> length (pos # r1) = marks (i # its1)
        \<and> (\<forall>x\<in>set (pos # r1). pos \<le> x)
        \<and> reaches ml its2 (pos + width (i # its1)) (pos + length rest) r2"
      using Mark r by simp
    then show ?thesis by blast
  qed
qed


lemma re_m_bounds:
  "re_m ml its pos prev rest = Some r \<Longrightarrow> \<forall>x\<in>set r. pos \<le> x \<and> x \<le> pos + length rest"
proof (induction ml its pos prev rest arbitrary: r rule: re_m.induct)
  case (5 ml k its pos prev c cs)
  show ?case
  proof (cases "cls_ok k c")
    case True
    show ?thesis
    proof (cases "re_m ml (Star k # its) (Suc pos) (Some c) cs")
      case None
      with True "5.prems" have "re_m ml its pos prev (c # cs) = Some r" by simp
      from "5.IH"(2)[OF True None this] show ?thesis .
    next
      case (Some r')
      with True "5.prems" have "r' = r" by simp
      with "5.IH"(1)[OF True] Some show ?thesis by fastforce
    qed
  next
    case False
    with "5.prems" have "re_m ml its pos prev (c # cs) = Some r" by simp
    from "5.IH"(3)[OF False this] show ?thesis .
  qed
qed (fastforce split: if_splits)+

lemma reaches_bounds: "reaches ml its lo len r \<Longrightarrow> \<forall>x\<in>set r. lo \<le> x \<and> x \<le> len"
  unfolding reaches_def using re_m_bounds by fastforce

lemma reaches_Mark:
  "reaches ml (Mark # its) lo len r \<Longrightarrow> \<exists>p r'. r = p # r' \<and> lo \<le> p \<and> p \<le> len \<and>
     (\<exists>prev rest. re_m ml its p prev rest = Some r' \<and> p + length rest = len)"
proof -
  assume "reaches ml (Mark # its) lo len r"
  then obtain pos prev rest where a: "re_m ml (Mark # its) pos prev rest = Some r"
    and b: "lo \<le> pos" and c: "pos + length rest = len"
    unfolding reaches_def by blast
  from a obtain r' where "r = pos # r'" "re_m ml its pos prev rest = Some r'" by auto
  with b c show ?thesis by (metis le_add1)
qed

lemma scan_reaches:
  "scan ml its pos prev rest = Some r \<Longrightarrow>
     \<exists>p r'. r = p # r' \<and> reaches ml its pos (pos + length rest) r'"
proof (induction rest arbitrary: pos prev)
  case Nil
  then obtain r' where "r = pos # r'" "re_m ml its pos prev [] = Some r'" by auto
  moreover from this have "reaches ml its pos (pos + length ([]::string)) r'"
    unfolding reaches_def by (metis le_refl)
  ultimately show ?case by blast
next
  case (Cons c cs)
  show ?case
  proof (cases "re_m ml its pos prev (c # cs)")
    case None
    with Cons.prems have "scan ml its (Suc pos) (Some c) cs = Some r" by simp
    from Cons.IH[OF this] obtain p r' where
      "r = p # r'" "reaches ml its (Suc pos) (Suc pos + length cs) r'" by blast
    with reaches_mono[of ml its "Suc pos" "Suc pos + length cs" r' pos]
    show ?thesis by simp
  next
    case (Some r')
    with Cons.prems have "r = pos # r'" by simp
    moreover from Some have "reaches ml its pos (pos + length (c # cs)) r'"
      unfolding reaches_def by (metis le_refl)
    ultimately show ?thesis by blast
  qed
qed

text \<open>The first group of a pattern \<open>pre (mid) post\<close> spans at least the width of \<open>mid\<close>.\<close>

lemma group1_length:
  assumes "re_search ml (pre @ Mark # mid @ Mark # post) txt = Some m"
    and "marks pre = 0" and "marks mid = 0"
  shows "width mid \<le> length (group m 1)"
proof -
  from assms(1) obtain r where m: "m = (txt, r)"
    and sc: "scan ml (pre @ Mark # mid @ Mark # post) 0 None txt = Some r"
    by (auto simp: re_search_def)
  from scan_reaches[OF sc] obtain p r' where r: "r = p # r'"
    and re: "reaches ml (pre @ Mark # mid @ Mark # post) 0 (length txt) r'" by auto
  then obtain pos prev rest where
    a: "re_m ml (pre @ (Mark # mid @ Mark # post)) pos prev rest = Some r'"
    and len: "pos + length rest = length txt"
    unfolding reaches_def by auto
  from re_m_split[OF a] assms(2) have "reaches ml (Mark # mid @ Mark # post) (pos + width pre) (pos + length rest) r'"
    by auto
  from reaches_Mark[OF this] obtain p1 r1 prev1 rest1 where r': "r' = p1 # r1"
    and b: "re_m ml (mid @ (Mark # post)) p1 prev1 rest1 = Some r1"
    and len1: "p1 + length rest1 = length txt"
    using len by auto
  from re_m_split[OF b] assms(3) have "reaches ml (Mark # post) (p1 + width mid) (p1 + length rest1) r1"
    by auto
  from reaches_Mark[OF this] obtain p2 r2 where r1: "r1 = p2 # r2"
    and lo: "p1 + width mid \<le> p2" and hi: "p2 \<le> length txt"
    using len1 by auto
  have "group m 1 = take (p2 - p1) (drop p1 txt)"
    by (simp add: group_def slice_def m r r' r1)
  with lo hi show ?thesis by simp
qed

subsection \<open>Captures of the source patterns\<close>

lemma src_pdf_group: "re_search ml src_pdf_r txt = Some m \<Longrightarrow> 4 \<le> length (group m 1)"
  using group1_length[of ml "[Bol, Star Any] @ lit '' Document source: ''"
      "[Star Any, One Any] @ lit ''pdf''" "[Eol]" "txt" m]
  by (simp add: src_pdf_r_def marks_append marks_lit width_append width_lit)

lemma src_html_group: "re_search ml src_html_r txt = Some m \<Longrightarrow> 8 \<le> length (group m 1)"
  using group1_length[of ml "[Bol, Star Any] @ lit '' Document source: ''"
      "[Star Any, One Any] @ lit ''html'' @ [One Any] @ lit ''gz''" "[Eol]" "txt" m]
  by (simp add: src_html_r_def marks_append marks_lit width_append width_lit)

lemma src_tex_group: "re_search ml src_tex_r txt = Some m \<Longrightarrow> 3 \<le> length (group m 1)"
  using group1_length[of ml "[Bol, Star Any] @ lit '' Document source: ''"
      "[Star Any, One Any] @ lit ''gz''" "[Eol]" "txt" m]
  by (simp add: src_tex_r_def marks_append marks_lit width_append width_lit)

subsection \<open>The actions of a submission\<close>

lemma act_simps [simp]:
  "act_subtype (a, b, c, d, e) = b" "act_op (a, b, c, d, e) = d" "act_target (a, b, c, d, e) = e"
  by (simp_all add: act_subtype_def act_op_def act_target_def)

lemma upload_abs_src_acts_subtype:
  "a \<in> set (upload_abs_src_acts subid arxiv_id subtype txt) \<Longrightarrow> act_subtype a = subtype"
  by (auto simp: upload_abs_src_acts_def Let_def split: option.splits)

lemma rep_version_acts_subtype:
  "a \<in> set (rep_version_acts subid arxiv_id subtype txt) \<Longrightarrow> act_subtype a = subtype"
  by (auto simp: rep_version_acts_def)

lemma upload_abs_acts_subtype:
  "a \<in> set (upload_abs_acts subid arxiv_id subtype) \<Longrightarrow> act_subtype a = subtype"
  by (auto simp: upload_abs_acts_def Let_def)

lemma upload_abs_acts_target:
  "a \<in> set (upload_abs_acts subid arxiv_id subtype) \<Longrightarrow> act_target a \<noteq> []"
  by (auto simp: upload_abs_acts_def Let_def FTP_PREFIX_def)

lemma todo_loop_invariant:
  assumes "todo_loop Identifier' ss acc = Inr todo"
    and "\<forall>a\<in>set acc. P a"
    and "\<And>s acts. s \<in> set ss \<Longrightarrow> sub_todos Identifier' s = Inr acts \<Longrightarrow> \<forall>a\<in>set acts. P a"
  shows "\<forall>a\<in>set todo. P a"
  using assms
proof (induction ss arbitrary: acc)
  case Nil
  then show ?case by simp
next
  case (Cons s ss)
  from Cons.prems(1) obtain acts where acts: "sub_todos Identifier' s = Inr acts"
    and rest: "todo_loop Identifier' ss (acc @ acts) = Inr todo"
    by (auto split: sum.splits)
  have "\<forall>a\<in>set (acc @ acts). P a"
    using Cons.prems(2) Cons.prems(3)[OF _ acts] by auto
  moreover have "\<And>s' acts. s' \<in> set ss \<Longrightarrow> sub_todos Identifier' s' = Inr acts
      \<Longrightarrow> \<forall>a\<in>set acts. P a"
    by (rule Cons.prems(3)) simp_all
  ultimately show ?case by (rule Cons.IH[OF rest])
qed

subsection \<open>Evaluating the logs\<close>

lemma make_todos_log_wdr:
  "make_todos spec_Identifier (\<lambda>f. Some log_wdr) ''publish.log'' = Inr todo_wdr"
  by code_simp

lemma read_subs_log_wdr: "read_subs (readlines log_wdr) = [(''4003'', block_wdr)]"
  by code_simp

subsection \<open>Withdrawals are not built\<close>

lemma sub_todos_no_wdr_build:
  assumes "sub_todos Identifier' s = Inr acts" and "a \<in> set acts"
  shows "\<not> (act_subtype a = ''wdr'' \<and> act_op a = ''build+upload'')"
proof -
  obtain subid t where s: "s = (subid, t)" by (cases s)
  show ?thesis
    using assms unfolding s sub_todos_def
    by (auto split: option.splits sum.splits
        dest!: upload_abs_src_acts_subtype rep_version_acts_subtype upload_abs_acts_subtype)
qed

text \<open>
  Claim C3. Whatever the log, the list that \<open>make_todos\<close> returns has no action with the
  operation \<open>build+upload\<close> for a withdrawal (\<open>wdr\<close>), also when the block of the
  withdrawal names a compressed source.
\<close>

theorem make_todos_no_build_for_withdrawal:
  assumes "make_todos Identifier' files fname = Inr todo"
  shows "\<forall>a\<in>set todo. \<not> (act_subtype a = ''wdr'' \<and> act_op a = ''build+upload'')"
proof -
  from assms obtain content where
    "todo_loop Identifier' (read_subs (readlines content)) [] = Inr todo"
    by (auto simp: make_todos_def split: option.splits)
  then show ?thesis
    by (rule todo_loop_invariant) (auto dest: sub_todos_no_wdr_build)
qed

theorem make_todos_no_build_for_withdrawal_witness:
  "make_todos spec_Identifier (\<lambda>f. Some log_wdr) ''publish.log'' = Inr todo_wdr
   \<and> \<not> (\<exists>a\<in>set todo_wdr. act_subtype a = ''wdr'' \<and> act_op a = ''build+upload'')
   \<and> (\<exists>a\<in>set todo_wdr. act_subtype a = ''wdr'')"
  using make_todos_no_build_for_withdrawal[OF make_todos_log_wdr] make_todos_log_wdr
  by (simp add: todo_wdr_def)

subsection \<open>Searching a literal pattern\<close>

lemma re_m_lit:
  "re_m ml (lit s @ its) pos prev rest =
     (if take (length s) rest = s
      then re_m ml its (pos + length s) (if s = [] then prev else Some (last s)) (drop (length s) rest)
      else None)"
proof (induction s arbitrary: pos prev rest)
  case Nil
  then show ?case by (simp add: lit_def)
next
  case (Cons c s)
  show ?case
  proof (cases rest)
    case Nil
    then show ?thesis by (simp add: lit_def)
  next
    case (Cons d ds)
    with Cons.IH[of "Suc pos" "Some c" ds] show ?thesis
      by (auto simp: lit_def)
  qed
qed

lemma scan_lit:
  "scan ml (lit s) pos prev rest \<noteq> None \<longleftrightarrow> sublist s rest"
proof (induction rest arbitrary: pos prev)
  case Nil
  show ?case using re_m_lit[of ml s "[]" pos prev "[]"] by (auto split: if_splits)
next
  case (Cons c cs)
  have pre: "re_m ml (lit s) pos prev (c # cs) \<noteq> None \<longleftrightarrow> prefix s (c # cs)"
    using re_m_lit[of ml s "[]" pos prev "c # cs"]
    by (auto simp: prefix_def split: if_splits) (metis append_eq_conv_conj)+
  show ?case
    using Cons.IH[of "Suc pos" "Some c"] pre
    by (auto simp: sublist_Cons_right split: option.splits)
qed

lemma test_r_search: "re_search False test_r txt \<noteq> None \<longleftrightarrow> sublist '' Test Submission. Skipping.'' txt"
  using scan_lit[of False "'' Test Submission. Skipping.''" 0 None "txt"]
  by (simp add: re_search_def test_r_def)

subsection \<open>The order of the patterns\<close>

text \<open>
  Claim C4. For every block the patterns are tested in a fixed order and the first that
  matches decides: the test marker, then new submission, replacement, withdrawal,
  cross-listing and journal reference. A block that holds the marker
  \<open>Test Submission. Skipping.\<close> anywhere yields no action, whatever else it holds, and a
  block that matches no pattern yields no action.
\<close>

theorem sub_todos_priority:
  "(sublist '' Test Submission. Skipping.'' txt \<longrightarrow> sub_todos Identifier' (subid, txt) = Inr [])
   \<and> (\<not> sublist '' Test Submission. Skipping.'' txt \<and> re_search True new_r txt = Some m \<longrightarrow>
        sub_todos Identifier' (subid, txt) =
          (case Identifier' (group m 1 @ ''v1'') of
             Inl e \<Rightarrow> Inl e
           | Inr arxiv_id \<Rightarrow> Inr (upload_abs_src_acts subid arxiv_id ''new'' txt)))
   \<and> (\<not> sublist '' Test Submission. Skipping.'' txt \<and> re_search True new_r txt = None
        \<and> re_search True rep_r txt = Some m \<longrightarrow>
        sub_todos Identifier' (subid, txt) =
          (case Identifier' (group m 1 @ ''v'' @ group m 3) of
             Inl e \<Rightarrow> Inl e
           | Inr arxiv_id \<Rightarrow> Inr (rep_version_acts subid arxiv_id ''rep'' txt
                                 @ upload_abs_src_acts subid arxiv_id ''rep'' txt)))
   \<and> (\<not> sublist '' Test Submission. Skipping.'' txt \<and> re_search True new_r txt = None
        \<and> re_search True rep_r txt = None \<and> re_search True wdr_r txt = Some m \<longrightarrow>
        sub_todos Identifier' (subid, txt) =
          (case Identifier' (group m 1 @ ''v'' @ group m 3) of
             Inl e \<Rightarrow> Inl e
           | Inr arxiv_id \<Rightarrow> Inr (filter (\<lambda>tt. act_op tt \<noteq> ''build+upload'')
                                 (rep_version_acts subid arxiv_id ''wdr'' txt
                                  @ upload_abs_src_acts subid arxiv_id ''wdr'' txt))))
   \<and> (\<not> sublist '' Test Submission. Skipping.'' txt \<and> re_search True new_r txt = None
        \<and> re_search True rep_r txt = None \<and> re_search True wdr_r txt = None
        \<and> re_search False cross_r txt = Some m \<longrightarrow>
        sub_todos Identifier' (subid, txt) =
          (case Identifier' (group m 1) of
             Inl e \<Rightarrow> Inl e
           | Inr arxiv_id \<Rightarrow> Inr (upload_abs_acts subid arxiv_id ''cross'')))
   \<and> (\<not> sublist '' Test Submission. Skipping.'' txt \<and> re_search True new_r txt = None
        \<and> re_search True rep_r txt = None \<and> re_search True wdr_r txt = None
        \<and> re_search False cross_r txt = None \<and> re_search False jref_r txt = Some m \<longrightarrow>
        sub_todos Identifier' (subid, txt) =
          (case Identifier' (group m 1) of
             Inl e \<Rightarrow> Inl e
           | Inr arxiv_id \<Rightarrow> Inr (upload_abs_acts subid arxiv_id ''jref'')))
   \<and> (\<not> sublist '' Test Submission. Skipping.'' txt \<and> re_search True new_r txt = None
        \<and> re_search True rep_r txt = None \<and> re_search True wdr_r txt = None
        \<and> re_search False cross_r txt = None \<and> re_search False jref_r txt = None \<longrightarrow>
        sub_todos Identifier' (subid, txt) = Inr [])"
  unfolding sub_todos_def test_r_search[symmetric]
  by (auto split: option.splits)

lemma eval_block_test: "sublist '' Test Submission. Skipping.'' block_test"
  by code_simp

lemma eval_block_new:
  "\<not> sublist '' Test Submission. Skipping.'' block_new
   \<and> re_search True new_r block_new = Some (block_new, [0, 37, 47, 47])"
  by code_simp

lemma eval_block_rep:
  "\<not> sublist '' Test Submission. Skipping.'' block_rep
   \<and> re_search True new_r block_rep = None
   \<and> re_search True rep_r block_rep = Some (block_rep, [0, 22, 32, 67, 68, 88, 89, 89])"
  by code_simp

lemma eval_block_wdr:
  "\<not> sublist '' Test Submission. Skipping.'' block_wdr
   \<and> re_search True new_r block_wdr = None
   \<and> re_search True rep_r block_wdr = None
   \<and> re_search True wdr_r block_wdr = Some (block_wdr, [0, 20, 30, 65, 66, 86, 87, 87])"
  by code_simp

lemma eval_block_cross:
  "\<not> sublist '' Test Submission. Skipping.'' block_cross
   \<and> re_search True new_r block_cross = None
   \<and> re_search True rep_r block_cross = None
   \<and> re_search True wdr_r block_cross = None
   \<and> re_search False cross_r block_cross = Some (block_cross, [5, 16, 32, 32])"
  by code_simp

lemma eval_block_jref:
  "\<not> sublist '' Test Submission. Skipping.'' block_jref
   \<and> re_search True new_r block_jref = None
   \<and> re_search True rep_r block_jref = None
   \<and> re_search True wdr_r block_jref = None
   \<and> re_search False cross_r block_jref = None
   \<and> re_search False jref_r block_jref = Some (block_jref, [5, 22, 34, 34])"
  by code_simp

lemma eval_block_other:
  "\<not> sublist '' Test Submission. Skipping.'' block_other
   \<and> re_search True new_r block_other = None
   \<and> re_search True rep_r block_other = None
   \<and> re_search True wdr_r block_other = None
   \<and> re_search False cross_r block_other = None
   \<and> re_search False jref_r block_other = None"
  by code_simp

lemma plan_block_new:
  "(case spec_Identifier (group (block_new, [0, 37, 47, 47]) 1 @ ''v1'') of
      Inl e \<Rightarrow> Inl e
    | Inr arxiv_id \<Rightarrow> Inr (upload_abs_src_acts ''4001'' arxiv_id ''new'' block_new))
   = Inr [(''4001'', ''new'', ''2201.00001v1'', ''upload'', ''/data/new/1.abs''),
          (''4001'', ''new'', ''2201.00001v1'', ''upload'', ''/data/new/1.tar.gz''),
          (''4001'', ''new'', ''2201.00001v1'', ''build+upload'', ''2201.00001v1'')]"
  by code_simp

lemma plan_block_rep:
  "(case spec_Identifier (group (block_rep, [0, 22, 32, 67, 68, 88, 89, 89]) 1 @ ''v''
                          @ group (block_rep, [0, 22, 32, 67, 68, 88, 89, 89]) 3) of
      Inl e \<Rightarrow> Inl e
    | Inr arxiv_id \<Rightarrow> Inr (rep_version_acts ''4002'' arxiv_id ''rep'' block_rep
                          @ upload_abs_src_acts ''4002'' arxiv_id ''rep'' block_rep))
   = Inr [(''4002'', ''rep'', ''2201.00001v2'', ''upload'', ''/data/ftp/1.abs''),
          (''4002'', ''rep'', ''2201.00001v2'', ''upload'', ''/data/ftp/1.html.gz'')]"
  by code_simp

lemma plan_block_wdr:
  "(case spec_Identifier (group (block_wdr, [0, 20, 30, 65, 66, 86, 87, 87]) 1 @ ''v''
                          @ group (block_wdr, [0, 20, 30, 65, 66, 86, 87, 87]) 3) of
      Inl e \<Rightarrow> Inl e
    | Inr arxiv_id \<Rightarrow> Inr (filter (\<lambda>tt. act_op tt \<noteq> ''build+upload'')
                          (rep_version_acts ''4003'' arxiv_id ''wdr'' block_wdr
                           @ upload_abs_src_acts ''4003'' arxiv_id ''wdr'' block_wdr)))
   = Inr todo_wdr"
  by code_simp

lemma plan_block_cross:
  "(case spec_Identifier (group (block_cross, [5, 16, 32, 32]) 1) of
      Inl e \<Rightarrow> Inl e
    | Inr arxiv_id \<Rightarrow> Inr (upload_abs_acts ''4005'' arxiv_id ''cross''))
   = Inr [(''4005'', ''cross'', ''hep-th/9901001v2'', ''upload'',
           ''/data/ftp//hep-th/papers/9901/9901001.abs'')]"
  by code_simp

lemma plan_block_jref:
  "(case spec_Identifier (group (block_jref, [5, 22, 34, 34]) 1) of
      Inl e \<Rightarrow> Inl e
    | Inr arxiv_id \<Rightarrow> Inr (upload_abs_acts ''4006'' arxiv_id ''jref''))
   = Inr [(''4006'', ''jref'', ''2201.00001v3'', ''upload'',
           ''/data/ftp//arxiv/papers/2201/2201.00001.abs'')]"
  by code_simp

theorem sub_todos_priority_witness:
  "sub_todos spec_Identifier (''4000'', block_test) = Inr []
   \<and> sub_todos spec_Identifier (''4001'', block_new)
       = Inr [(''4001'', ''new'', ''2201.00001v1'', ''upload'', ''/data/new/1.abs''),
              (''4001'', ''new'', ''2201.00001v1'', ''upload'', ''/data/new/1.tar.gz''),
              (''4001'', ''new'', ''2201.00001v1'', ''build+upload'', ''2201.00001v1'')]
   \<and> sub_todos spec_Identifier (''4002'', block_rep)
       = Inr [(''4002'', ''rep'', ''2201.00001v2'', ''upload'', ''/data/ftp/1.abs''),
              (''4002'', ''rep'', ''2201.00001v2'', ''upload'', ''/data/ftp/1.html.gz'')]
   \<and> sub_todos spec_Identifier (''4003'', block_wdr) = Inr todo_wdr
   \<and> sub_todos spec_Identifier (''4005'', block_cross)
       = Inr [(''4005'', ''cross'', ''hep-th/9901001v2'', ''upload'',
               ''/data/ftp//hep-th/papers/9901/9901001.abs'')]
   \<and> sub_todos spec_Identifier (''4006'', block_jref)
       = Inr [(''4006'', ''jref'', ''2201.00001v3'', ''upload'',
               ''/data/ftp//arxiv/papers/2201/2201.00001.abs'')]
   \<and> sub_todos spec_Identifier (''4007'', block_other) = Inr []"
proof -
  have 1: "sub_todos spec_Identifier (''4000'', block_test) = Inr []"
    using sub_todos_priority[of block_test spec_Identifier "''4000''"] eval_block_test by blast
  have 2: "sub_todos spec_Identifier (''4001'', block_new) =
      (case spec_Identifier (group (block_new, [0, 37, 47, 47]) 1 @ ''v1'') of
         Inl e \<Rightarrow> Inl e
       | Inr arxiv_id \<Rightarrow> Inr (upload_abs_src_acts ''4001'' arxiv_id ''new'' block_new))"
    using sub_todos_priority[of block_new spec_Identifier "''4001''" "(block_new, [0, 37, 47, 47])"]
      eval_block_new by blast
  have 3: "sub_todos spec_Identifier (''4002'', block_rep) =
      (case spec_Identifier (group (block_rep, [0, 22, 32, 67, 68, 88, 89, 89]) 1 @ ''v''
                              @ group (block_rep, [0, 22, 32, 67, 68, 88, 89, 89]) 3) of
         Inl e \<Rightarrow> Inl e
       | Inr arxiv_id \<Rightarrow> Inr (rep_version_acts ''4002'' arxiv_id ''rep'' block_rep
                             @ upload_abs_src_acts ''4002'' arxiv_id ''rep'' block_rep))"
    using sub_todos_priority[of block_rep spec_Identifier "''4002''"
        "(block_rep, [0, 22, 32, 67, 68, 88, 89, 89])"] eval_block_rep by blast
  have 4: "sub_todos spec_Identifier (''4003'', block_wdr) =
      (case spec_Identifier (group (block_wdr, [0, 20, 30, 65, 66, 86, 87, 87]) 1 @ ''v''
                              @ group (block_wdr, [0, 20, 30, 65, 66, 86, 87, 87]) 3) of
         Inl e \<Rightarrow> Inl e
       | Inr arxiv_id \<Rightarrow> Inr (filter (\<lambda>tt. act_op tt \<noteq> ''build+upload'')
                             (rep_version_acts ''4003'' arxiv_id ''wdr'' block_wdr
                              @ upload_abs_src_acts ''4003'' arxiv_id ''wdr'' block_wdr)))"
    using sub_todos_priority[of block_wdr spec_Identifier "''4003''"
        "(block_wdr, [0, 20, 30, 65, 66, 86, 87, 87])"] eval_block_wdr by blast
  have 5: "sub_todos spec_Identifier (''4005'', block_cross) =
      (case spec_Identifier (group (block_cross, [5, 16, 32, 32]) 1) of
         Inl e \<Rightarrow> Inl e
       | Inr arxiv_id \<Rightarrow> Inr (upload_abs_acts ''4005'' arxiv_id ''cross''))"
    using sub_todos_priority[of block_cross spec_Identifier "''4005''"
        "(block_cross, [5, 16, 32, 32])"] eval_block_cross by blast
  have 6: "sub_todos spec_Identifier (''4006'', block_jref) =
      (case spec_Identifier (group (block_jref, [5, 22, 34, 34]) 1) of
         Inl e \<Rightarrow> Inl e
       | Inr arxiv_id \<Rightarrow> Inr (upload_abs_acts ''4006'' arxiv_id ''jref''))"
    using sub_todos_priority[of block_jref spec_Identifier "''4006''"
        "(block_jref, [5, 22, 34, 34])"] eval_block_jref by blast
  have 7: "sub_todos spec_Identifier (''4007'', block_other) = Inr []"
    using sub_todos_priority[of block_other spec_Identifier "''4007''"] eval_block_other by blast
  show ?thesis
    unfolding 1 2 3 4 5 6 7 plan_block_new plan_block_rep plan_block_wdr plan_block_cross
      plan_block_jref by simp
qed

subsection \<open>The source of a submission\<close>

text \<open>
  Claim C5. In the block of a new submission or a replacement the source is looked for
  as pdf first, then html.gz, then any .gz, and one \<open>upload\<close> action is emitted for the
  source found; exactly one more action, \<open>build+upload\<close> for the identifier with its
  version, is emitted if and only if the source found is of the generic compressed kind.
  When no source is found, no source or build action is emitted, and the \<open>upload\<close> of the
  abstract (when the block has an \<open>absfile\<close> line) still is.
\<close>

theorem upload_abs_src_acts_source:
  "(re_search True src_pdf_r txt = Some m \<longrightarrow>
      upload_abs_src_acts subid arxiv_id subtype txt =
        (case re_search True abs_r txt of
           Some a \<Rightarrow> [(subid, subtype, idv arxiv_id, ''upload'', group a 1)] | None \<Rightarrow> [])
        @ [(subid, subtype, idv arxiv_id, ''upload'', group m 1)])
   \<and> (re_search True src_pdf_r txt = None \<and> re_search True src_html_r txt = Some m \<longrightarrow>
      upload_abs_src_acts subid arxiv_id subtype txt =
        (case re_search True abs_r txt of
           Some a \<Rightarrow> [(subid, subtype, idv arxiv_id, ''upload'', group a 1)] | None \<Rightarrow> [])
        @ [(subid, subtype, idv arxiv_id, ''upload'', group m 1)])
   \<and> (re_search True src_pdf_r txt = None \<and> re_search True src_html_r txt = None
        \<and> re_search True src_tex_r txt = Some m \<longrightarrow>
      upload_abs_src_acts subid arxiv_id subtype txt =
        (case re_search True abs_r txt of
           Some a \<Rightarrow> [(subid, subtype, idv arxiv_id, ''upload'', group a 1)] | None \<Rightarrow> [])
        @ [(subid, subtype, idv arxiv_id, ''upload'', group m 1),
           (subid, subtype, idv arxiv_id, ''build+upload'',
            id' arxiv_id @ ''v'' @ str_int (version arxiv_id))])
   \<and> (re_search True src_pdf_r txt = None \<and> re_search True src_html_r txt = None
        \<and> re_search True src_tex_r txt = None \<longrightarrow>
      upload_abs_src_acts subid arxiv_id subtype txt =
        (case re_search True abs_r txt of
           Some a \<Rightarrow> [(subid, subtype, idv arxiv_id, ''upload'', group a 1)] | None \<Rightarrow> []))
   \<and> length (filter (\<lambda>tt. act_op tt = ''build+upload'')
               (upload_abs_src_acts subid arxiv_id subtype txt))
       = (if re_search True src_pdf_r txt = None \<and> re_search True src_html_r txt = None
             \<and> re_search True src_tex_r txt \<noteq> None then 1 else 0)"
  unfolding upload_abs_src_acts_def Let_def
  by (auto split: option.splits)

lemma eval_src_block_pdf:
  "re_search True abs_r block_pdf = Some (block_pdf, [48, 63, 78, 78])
   \<and> re_search True src_pdf_r block_pdf = Some (block_pdf, [79, 102, 117, 117])
   \<and> group (block_pdf, [48, 63, 78, 78]) 1 = ''/data/new/1.abs''
   \<and> group (block_pdf, [79, 102, 117, 117]) 1 = ''/data/new/1.pdf''"
  by code_simp

lemma eval_src_block_new:
  "re_search True abs_r block_new = Some (block_new, [48, 63, 78, 78])
   \<and> re_search True src_pdf_r block_new = None
   \<and> re_search True src_html_r block_new = None
   \<and> re_search True src_tex_r block_new = Some (block_new, [79, 102, 120, 120])
   \<and> group (block_new, [48, 63, 78, 78]) 1 = ''/data/new/1.abs''
   \<and> group (block_new, [79, 102, 120, 120]) 1 = ''/data/new/1.tar.gz''"
  by code_simp

lemma eval_src_block_rep:
  "re_search True abs_r block_rep = None
   \<and> re_search True src_pdf_r block_rep = None
   \<and> re_search True src_html_r block_rep = Some (block_rep, [137, 160, 179, 179])
   \<and> re_search True src_tex_r block_rep = Some (block_rep, [137, 160, 179, 179])
   \<and> group (block_rep, [137, 160, 179, 179]) 1 = ''/data/ftp/1.html.gz''"
  by code_simp

lemma eval_src_block_other:
  "re_search True abs_r block_other = None
   \<and> re_search True src_pdf_r block_other = None
   \<and> re_search True src_html_r block_other = None
   \<and> re_search True src_tex_r block_other = None"
  by code_simp

theorem upload_abs_src_acts_source_witness:
  "upload_abs_src_acts ''4001'' id_2201 ''new'' block_pdf
     = [(''4001'', ''new'', ''2201.00001v1'', ''upload'', ''/data/new/1.abs''),
        (''4001'', ''new'', ''2201.00001v1'', ''upload'', ''/data/new/1.pdf'')]
   \<and> upload_abs_src_acts ''4002'' id_2201 ''rep'' block_rep
     = [(''4002'', ''rep'', ''2201.00001v1'', ''upload'', ''/data/ftp/1.html.gz'')]
   \<and> upload_abs_src_acts ''4001'' id_2201 ''new'' block_new
     = [(''4001'', ''new'', ''2201.00001v1'', ''upload'', ''/data/new/1.abs''),
        (''4001'', ''new'', ''2201.00001v1'', ''upload'', ''/data/new/1.tar.gz''),
        (''4001'', ''new'', ''2201.00001v1'', ''build+upload'', ''2201.00001v1'')]
   \<and> upload_abs_src_acts ''4007'' id_2201 ''new'' block_other = []
   \<and> length (filter (\<lambda>tt. act_op tt = ''build+upload'')
               (upload_abs_src_acts ''4001'' id_2201 ''new'' block_new)) = 1"
proof -
  have v: "str_int 1 = ''1''" by code_simp
  have 1: "upload_abs_src_acts ''4001'' id_2201 ''new'' block_pdf
     = [(''4001'', ''new'', ''2201.00001v1'', ''upload'', ''/data/new/1.abs''),
        (''4001'', ''new'', ''2201.00001v1'', ''upload'', ''/data/new/1.pdf'')]"
    using upload_abs_src_acts_source[of block_pdf "(block_pdf, [79, 102, 117, 117])"
        "''4001''" id_2201 "''new''"] eval_src_block_pdf
    by (simp add: id_2201_def)
  have 2: "upload_abs_src_acts ''4002'' id_2201 ''rep'' block_rep
     = [(''4002'', ''rep'', ''2201.00001v1'', ''upload'', ''/data/ftp/1.html.gz'')]"
    using upload_abs_src_acts_source[of block_rep "(block_rep, [137, 160, 179, 179])"
        "''4002''" id_2201 "''rep''"] eval_src_block_rep
    by (simp add: id_2201_def)
  have 3: "upload_abs_src_acts ''4001'' id_2201 ''new'' block_new
     = [(''4001'', ''new'', ''2201.00001v1'', ''upload'', ''/data/new/1.abs''),
        (''4001'', ''new'', ''2201.00001v1'', ''upload'', ''/data/new/1.tar.gz''),
        (''4001'', ''new'', ''2201.00001v1'', ''build+upload'', ''2201.00001v1'')]"
    using upload_abs_src_acts_source[of block_new "(block_new, [79, 102, 120, 120])"
        "''4001''" id_2201 "''new''"] eval_src_block_new v
    by (simp add: id_2201_def)
  have 4: "upload_abs_src_acts ''4007'' id_2201 ''new'' block_other = []"
    using upload_abs_src_acts_source[of block_other _ "''4007''" id_2201 "''new''"]
      eval_src_block_other
    by simp
  show ?thesis unfolding 1 2 3 4 by simp
qed

subsection \<open>Cross-listings and journal references\<close>

text \<open>
  Claim C10. A cross-listing or a journal reference yields exactly one \<open>upload\<close> action,
  whose target is \<open>/data/ftp//{archive}/papers/{yymm}/{filename}.abs\<close>, with \<open>arxiv\<close> for
  the archive unless the identifier is a legacy one, which gives its own archive. The
  target has two slashes after \<open>/data/ftp\<close>: \<open>FTP_PREFIX\<close> ends with one and the template
  adds one.
\<close>

theorem cross_jref_single_upload:
  "(\<not> sublist '' Test Submission. Skipping.'' txt \<and> re_search True new_r txt = None
      \<and> re_search True rep_r txt = None \<and> re_search True wdr_r txt = None
      \<and> re_search False cross_r txt = Some m \<and> Identifier' (group m 1) = Inr arxiv_id \<longrightarrow>
      sub_todos Identifier' (subid, txt) =
        Inr [(subid, ''cross'', idv arxiv_id, ''upload'',
              ''/data/ftp//'' @ (if is_old_id arxiv_id then archive arxiv_id else ''arxiv'')
                @ ''/papers/'' @ yymm arxiv_id @ ''/'' @ filename arxiv_id @ ''.abs'')])
   \<and> (\<not> sublist '' Test Submission. Skipping.'' txt \<and> re_search True new_r txt = None
      \<and> re_search True rep_r txt = None \<and> re_search True wdr_r txt = None
      \<and> re_search False cross_r txt = None
      \<and> re_search False jref_r txt = Some m \<and> Identifier' (group m 1) = Inr arxiv_id \<longrightarrow>
      sub_todos Identifier' (subid, txt) =
        Inr [(subid, ''jref'', idv arxiv_id, ''upload'',
              ''/data/ftp//'' @ (if is_old_id arxiv_id then archive arxiv_id else ''arxiv'')
                @ ''/papers/'' @ yymm arxiv_id @ ''/'' @ filename arxiv_id @ ''.abs'')])"
  unfolding sub_todos_def test_r_search[symmetric]
  by (auto simp: upload_abs_acts_def FTP_PREFIX_def split: option.splits)

lemma eval_id_block_cross:
  "spec_Identifier (group (block_cross, [5, 16, 32, 32]) 1)
     = Inr \<lparr> id' = ''hep-th/9901001'', idv = ''hep-th/9901001v2'', is_old_id = True,
             archive = ''hep-th'', yymm = ''9901'', filename = ''9901001'', version = 2 \<rparr>"
  by code_simp

lemma eval_id_block_jref:
  "spec_Identifier (group (block_jref, [5, 22, 34, 34]) 1)
     = Inr \<lparr> id' = ''2201.00001'', idv = ''2201.00001v3'', is_old_id = False,
             archive = ''arxiv'', yymm = ''2201'', filename = ''2201.00001'', version = 3 \<rparr>"
  by code_simp

theorem cross_jref_single_upload_witness:
  "sub_todos spec_Identifier (''4005'', block_cross)
     = Inr [(''4005'', ''cross'', ''hep-th/9901001v2'', ''upload'',
             ''/data/ftp//hep-th/papers/9901/9901001.abs'')]
   \<and> sub_todos spec_Identifier (''4006'', block_jref)
     = Inr [(''4006'', ''jref'', ''2201.00001v3'', ''upload'',
             ''/data/ftp//arxiv/papers/2201/2201.00001.abs'')]"
proof -
  have 1: "sub_todos spec_Identifier (''4005'', block_cross)
     = Inr [(''4005'', ''cross'', ''hep-th/9901001v2'', ''upload'',
             ''/data/ftp//hep-th/papers/9901/9901001.abs'')]"
    using cross_jref_single_upload[of block_cross "(block_cross, [5, 16, 32, 32])"
        spec_Identifier _ "''4005''"] eval_block_cross eval_id_block_cross
    by simp
  have 2: "sub_todos spec_Identifier (''4006'', block_jref)
     = Inr [(''4006'', ''jref'', ''2201.00001v3'', ''upload'',
             ''/data/ftp//arxiv/papers/2201/2201.00001.abs'')]"
    using cross_jref_single_upload[of block_jref "(block_jref, [5, 22, 34, 34])"
        spec_Identifier _ "''4006''"] eval_block_jref eval_id_block_jref
    by simp
  show ?thesis unfolding 1 2 by simp
qed

subsection \<open>The blocks of a log\<close>

lemma seg_loop_append: "seg_loop (xs @ ys) st = seg_loop ys (seg_loop xs st)"
  by (induction xs arbitrary: st) auto

lemma seg_step_outside:
  "\<not> is_start line \<Longrightarrow> seg_step (subs, False, [], None) line = (subs, False, [], None)"
  by (cases "re_match False sub_start_r line") (simp_all add: seg_step_def is_start_def)

lemma seg_loop_outside:
  "\<forall>l\<in>set pre. \<not> is_start l \<Longrightarrow>
   seg_loop pre (subs, False, [], None) = (subs, False, [], None)"
  by (induction pre) (simp_all add: seg_step_outside)

lemma seg_step_start:
  "re_match False sub_start_r line = Some m \<Longrightarrow>
   seg_step (subs, False, [], None) line = (subs, True, [], Some m)"
  by (simp add: seg_step_def)

lemma seg_loop_inside:
  "\<forall>l\<in>set body. \<not> is_end l \<Longrightarrow>
   seg_loop body (subs, True, t, Some m) = (subs, True, t @ concat body, Some m)"
  by (induction body arbitrary: t) (auto simp: seg_step_def is_end_def)

lemma seg_step_end:
  "is_end line \<Longrightarrow>
   seg_step (subs, True, t, Some m) line = (subs @ [(group m 1, t @ line)], False, [], None)"
  by (auto simp: seg_step_def is_end_def)

lemma seg_step_subs:
  "fst (seg_step (subs, b, t, sm) line) = subs @ fst (seg_step ([], b, t, sm) line)
   \<and> snd (seg_step (subs, b, t, sm) line) = snd (seg_step ([], b, t, sm) line)"
  by (auto simp: seg_step_def Let_def split: option.splits)

lemma seg_loop_subs:
  "fst (seg_loop ls (subs, rest)) = subs @ fst (seg_loop ls ([], rest))
   \<and> snd (seg_loop ls (subs, rest)) = snd (seg_loop ls ([], rest))"
proof (induction ls arbitrary: subs rest)
  case Nil
  then show ?case by simp
next
  case (Cons l ls)
  obtain b t sm where rest: "rest = (b, t, sm)" by (cases rest)
  obtain s1 r1 where a: "seg_step ([], b, t, sm) l = (s1, r1)" by (cases "seg_step ([], b, t, sm) l")
  with seg_step_subs[of subs b t sm l] have b: "seg_step (subs, b, t, sm) l = (subs @ s1, r1)"
    by (cases "seg_step (subs, b, t, sm) l") auto
  show ?case
    using Cons.IH[of "subs @ s1" r1] Cons.IH[of s1 r1] by (simp add: rest a b)
qed

text \<open>
  Claim C9. The blocks come in file order, one for every region from a start line to the
  next end line: lines before a start line are skipped, the block takes the number of the
  start line and the text of the lines after it up to and with the end line, and the rest
  of the file is read in the same way. A start line with no end line after it before the
  end of the file yields no block.
\<close>

theorem read_subs_regions:
  "((\<forall>l\<in>set pre. \<not> is_start l) \<longrightarrow> read_subs pre = [])
   \<and> ((\<forall>l\<in>set pre. \<not> is_start l) \<and> re_match False sub_start_r start = Some m
        \<and> (\<forall>l\<in>set body. \<not> is_end l) \<and> is_end fin \<longrightarrow>
        read_subs (pre @ [start] @ body @ [fin] @ rest)
          = (group m 1, concat body @ fin) # read_subs rest)
   \<and> ((\<forall>l\<in>set pre. \<not> is_start l) \<and> is_start start \<and> (\<forall>l\<in>set body. \<not> is_end l) \<longrightarrow>
        read_subs (pre @ [start] @ body) = [])"
proof (intro conjI impI)
  assume "\<forall>l\<in>set pre. \<not> is_start l"
  then show "read_subs pre = []"
    by (simp add: read_subs_def seg_loop_outside)
next
  assume a: "(\<forall>l\<in>set pre. \<not> is_start l) \<and> re_match False sub_start_r start = Some m
        \<and> (\<forall>l\<in>set body. \<not> is_end l) \<and> is_end fin"
  then have "seg_loop (pre @ [start] @ body @ [fin]) ([], False, [], None)
      = ([(group m 1, concat body @ fin)], False, [], None)"
    by (simp add: seg_loop_append seg_loop_outside seg_step_start seg_loop_inside seg_step_end)
  then have "seg_loop (pre @ [start] @ body @ [fin] @ rest) ([], False, [], None)
      = seg_loop rest ([(group m 1, concat body @ fin)], False, [], None)"
    using seg_loop_append[of "pre @ [start] @ body @ [fin]" rest] by simp
  then show "read_subs (pre @ [start] @ body @ [fin] @ rest)
          = (group m 1, concat body @ fin) # read_subs rest"
    using seg_loop_subs[of rest "[(group m 1, concat body @ fin)]" "(False, [], None)"]
    by (simp add: read_subs_def)
next
  assume a: "(\<forall>l\<in>set pre. \<not> is_start l) \<and> is_start start \<and> (\<forall>l\<in>set body. \<not> is_end l)"
  then obtain m where "re_match False sub_start_r start = Some m"
    by (auto simp: is_start_def)
  with a show "read_subs (pre @ [start] @ body) = []"
    by (simp add: read_subs_def seg_loop_append seg_loop_outside seg_step_start seg_loop_inside)
qed


lemma eval_seg_lines:
  "\<not> is_start (''12:00 starting'' @ [NL])
   \<and> re_match False sub_start_r (''12:00 submission 4001'' @ [NL])
       = Some (''12:00 submission 4001'' @ [NL], [0, 17, 21, 21])
   \<and> group (''12:00 submission 4001'' @ [NL], [0, 17, 21, 21]) 1 = ''4001''
   \<and> \<not> is_end (''12:00 new submission'' @ [NL])
   \<and> is_end (''12:01 Finished processing submission 4001'' @ [NL])
   \<and> is_start (''12:02 submission 4002'' @ [NL])
   \<and> \<not> is_end (''12:02 cut off'' @ [NL])"
  by code_simp

theorem read_subs_regions_witness:
  "read_subs [''12:00 starting'' @ [NL]] = []
   \<and> read_subs ([''12:00 starting'' @ [NL]] @ [''12:00 submission 4001'' @ [NL]]
        @ [''12:00 new submission'' @ [NL]]
        @ [''12:01 Finished processing submission 4001'' @ [NL]]
        @ [''12:02 submission 4002'' @ [NL], ''12:02 cut off'' @ [NL]])
       = [(''4001'', ''12:00 new submission'' @ [NL]
                     @ ''12:01 Finished processing submission 4001'' @ [NL])]
   \<and> read_subs ([] @ [''12:02 submission 4002'' @ [NL]] @ [''12:02 cut off'' @ [NL]]) = []"
proof -
  note e = eval_seg_lines
  have 1: "read_subs [''12:00 starting'' @ [NL]] = []"
    using read_subs_regions[of "[''12:00 starting'' @ [NL]]"] e by simp
  have 3: "read_subs ([] @ [''12:02 submission 4002'' @ [NL]] @ [''12:02 cut off'' @ [NL]]) = []"
    using read_subs_regions[of "[]" "''12:02 submission 4002'' @ [NL]" _
        "[''12:02 cut off'' @ [NL]]"] e
    by simp
  have 2: "read_subs ([''12:00 starting'' @ [NL]] @ [''12:00 submission 4001'' @ [NL]]
        @ [''12:00 new submission'' @ [NL]]
        @ [''12:01 Finished processing submission 4001'' @ [NL]]
        @ [''12:02 submission 4002'' @ [NL], ''12:02 cut off'' @ [NL]])
       = (''4001'', ''12:00 new submission'' @ [NL]
                     @ ''12:01 Finished processing submission 4001'' @ [NL])
         # read_subs [''12:02 submission 4002'' @ [NL], ''12:02 cut off'' @ [NL]]"
    using read_subs_regions[of "[''12:00 starting'' @ [NL]]"
        "''12:00 submission 4001'' @ [NL]"
        "(''12:00 submission 4001'' @ [NL], [0, 17, 21, 21])"
        "[''12:00 new submission'' @ [NL]]"
        "''12:01 Finished processing submission 4001'' @ [NL]"
        "[''12:02 submission 4002'' @ [NL], ''12:02 cut off'' @ [NL]]"] e
    by simp
  from 3 have c: "read_subs [''12:02 submission 4002'' @ [NL], ''12:02 cut off'' @ [NL]] = []"
    by simp
  show ?thesis using 1 2 c by simp
qed

subsection \<open>The conditional upload\<close>

lemma retry_first_ok: "fst (f s) = Inr r \<Longrightarrow> retry n f s = f s"
  by (cases n) (auto split: prod.splits sum.splits)

lemma upload_attempt_uploads:
  assumes "files localpath = Some bytes"
    and "blobs g key = None \<or> (\<exists>b. blobs g key = Some b \<and> length (blob_data b) \<noteq> length bytes)"
  shows "upload_attempt files localpath key g =
     (Inr (''uploaded'', length bytes),
      g\<lparr>blobs := (blobs g)(key \<mapsto>
            \<lparr>blob_data = bytes, content_type = mime_from_fname localpath\<rparr>),
        calls := calls g @ [GetBlob key, UploadFromFile key bytes (mime_from_fname localpath)]\<rparr>)"
  using assms by (auto simp: upload_attempt_def Let_def)

lemma upload_attempt_skips:
  assumes "files localpath = Some bytes"
    and "blobs g key = Some b" and "length (blob_data b) = length bytes"
  shows "upload_attempt files localpath key g =
     (Inr (''already_on_gs'', 0), g\<lparr>calls := calls g @ [GetBlob key]\<rparr>)"
  using assms by (auto simp: upload_attempt_def Let_def)

lemma upload_uploads:
  assumes "files localpath = Some bytes"
    and "blobs g key = None \<or> (\<exists>b. blobs g key = Some b \<and> length (blob_data b) \<noteq> length bytes)"
  shows "upload files g localpath key =
     (Inr (''uploaded'', length bytes),
      g\<lparr>blobs := (blobs g)(key \<mapsto>
            \<lparr>blob_data = bytes, content_type = mime_from_fname localpath\<rparr>),
        calls := calls g @ [GetBlob key, UploadFromFile key bytes (mime_from_fname localpath)]\<rparr>)"
  unfolding upload_def
  using upload_attempt_uploads[of files localpath bytes g key] assms
  by (simp add: retry_first_ok)

lemma upload_skips:
  assumes "files localpath = Some bytes"
    and "blobs g key = Some b" and "length (blob_data b) = length bytes"
  shows "upload files g localpath key =
     (Inr (''already_on_gs'', 0), g\<lparr>calls := calls g @ [GetBlob key]\<rparr>)"
  unfolding upload_def
  using upload_attempt_skips[of files localpath bytes g key b] assms
  by (simp add: retry_first_ok)

lemma upload_ok_cases:
  assumes "files localpath = Some bytes"
  shows "\<exists>st g'. upload files g localpath key = (Inr st, g')
     \<and> (\<exists>b. blobs g' key = Some b \<and> length (blob_data b) = length bytes)"
proof (cases "blobs g key = None \<or> (\<exists>b. blobs g key = Some b \<and> length (blob_data b) \<noteq> length bytes)")
  case True
  with upload_uploads[of files localpath bytes g key] assms show ?thesis by simp
next
  case False
  then obtain b where "blobs g key = Some b" "length (blob_data b) = length bytes" by auto
  with upload_skips[of files localpath bytes g key b] assms show ?thesis by simp
qed

text \<open>
  Claim C1. For a local file and a key, \<open>upload\<close> first fetches the object at the key. If
  there is none, or its size differs from the size of the file, it uploads the bytes of
  the file with the content type of the file's extension (\<open>.pdf\<close>, \<open>.gz\<close>, \<open>.abs\<close>) and
  returns \<open>uploaded\<close> with the size; if an object of the same size is there, it transfers
  nothing and returns \<open>already_on_gs\<close> with 0. So a second run after a successful one, on
  the unchanged file, transfers nothing and returns \<open>already_on_gs\<close> with 0.
\<close>

theorem upload_conditional:
  assumes "files localpath = Some bytes"
  shows
   "(blobs g key = None \<or> (\<exists>b. blobs g key = Some b \<and> length (blob_data b) \<noteq> length bytes) \<longrightarrow>
      upload files g localpath key =
        (Inr (''uploaded'', length bytes),
         g\<lparr>blobs := (blobs g)(key \<mapsto>
               \<lparr>blob_data = bytes, content_type = mime_from_fname localpath\<rparr>),
           calls := calls g @ [GetBlob key,
                               UploadFromFile key bytes (mime_from_fname localpath)]\<rparr>))
    \<and> ((\<exists>b. blobs g key = Some b \<and> length (blob_data b) = length bytes) \<longrightarrow>
      upload files g localpath key =
        (Inr (''already_on_gs'', 0), g\<lparr>calls := calls g @ [GetBlob key]\<rparr>))
    \<and> (suffix' localpath = ''.pdf'' \<longrightarrow> mime_from_fname localpath = ''application/pdf'')
    \<and> (suffix' localpath = ''.gz'' \<longrightarrow> mime_from_fname localpath = ''application/gzip'')
    \<and> (suffix' localpath = ''.abs'' \<longrightarrow> mime_from_fname localpath = ''text/plain'')
    \<and> (\<forall>st g'. upload files g localpath key = (Inr st, g') \<longrightarrow>
          upload files g' localpath key =
            (Inr (''already_on_gs'', 0), g'\<lparr>calls := calls g' @ [GetBlob key]\<rparr>)
          \<and> transfers (snd (upload files g' localpath key)) = transfers g')"
proof (intro conjI impI allI)
  assume "blobs g key = None \<or> (\<exists>b. blobs g key = Some b \<and> length (blob_data b) \<noteq> length bytes)"
  with upload_uploads[of files localpath bytes g key] assms
  show "upload files g localpath key =
        (Inr (''uploaded'', length bytes),
         g\<lparr>blobs := (blobs g)(key \<mapsto>
               \<lparr>blob_data = bytes, content_type = mime_from_fname localpath\<rparr>),
           calls := calls g @ [GetBlob key,
                               UploadFromFile key bytes (mime_from_fname localpath)]\<rparr>)"
    by simp
next
  assume "\<exists>b. blobs g key = Some b \<and> length (blob_data b) = length bytes"
  then obtain b where "blobs g key = Some b" "length (blob_data b) = length bytes" by auto
  with upload_skips[of files localpath bytes g key b] assms
  show "upload files g localpath key =
        (Inr (''already_on_gs'', 0), g\<lparr>calls := calls g @ [GetBlob key]\<rparr>)"
    by simp
next
  fix st g'
  assume a: "upload files g localpath key = (Inr st, g')"
  with upload_ok_cases[of files localpath bytes g key] assms
  obtain b where b: "blobs g' key = Some b" "length (blob_data b) = length bytes" by auto
  with upload_skips[of files localpath bytes g' key b] assms
  show "upload files g' localpath key =
            (Inr (''already_on_gs'', 0), g'\<lparr>calls := calls g' @ [GetBlob key]\<rparr>)"
    by simp
  then show "transfers (snd (upload files g' localpath key)) = transfers g'"
    by (simp add: transfers_def)
qed (simp_all add: mime_from_fname_def)

lemma eval_mime_pdf:
  "suffix' ''/cache/ps_cache/arxiv/pdf/2201/2201.00001v1.pdf'' = ''.pdf''"
  by code_simp

theorem upload_conditional_witness:
  "fst (upload files_pdf gs_empty ''/cache/ps_cache/arxiv/pdf/2201/2201.00001v1.pdf''
          ''ps_cache/arxiv/pdf/2201/2201.00001v1.pdf'') = Inr (''uploaded'', 8)
   \<and> calls (snd (upload files_pdf gs_empty ''/cache/ps_cache/arxiv/pdf/2201/2201.00001v1.pdf''
          ''ps_cache/arxiv/pdf/2201/2201.00001v1.pdf''))
       = [GetBlob ''ps_cache/arxiv/pdf/2201/2201.00001v1.pdf'',
          UploadFromFile ''ps_cache/arxiv/pdf/2201/2201.00001v1.pdf'' ''%PDF-1.5''
            ''application/pdf'']
   \<and> fst (upload files_pdf
         (snd (upload files_pdf gs_empty ''/cache/ps_cache/arxiv/pdf/2201/2201.00001v1.pdf''
                 ''ps_cache/arxiv/pdf/2201/2201.00001v1.pdf''))
         ''/cache/ps_cache/arxiv/pdf/2201/2201.00001v1.pdf''
         ''ps_cache/arxiv/pdf/2201/2201.00001v1.pdf'') = Inr (''already_on_gs'', 0)
   \<and> transfers (snd (upload files_pdf
         (snd (upload files_pdf gs_empty ''/cache/ps_cache/arxiv/pdf/2201/2201.00001v1.pdf''
                 ''ps_cache/arxiv/pdf/2201/2201.00001v1.pdf''))
         ''/cache/ps_cache/arxiv/pdf/2201/2201.00001v1.pdf''
         ''ps_cache/arxiv/pdf/2201/2201.00001v1.pdf''))
       = [UploadFromFile ''ps_cache/arxiv/pdf/2201/2201.00001v1.pdf'' ''%PDF-1.5''
            ''application/pdf'']"
proof -
  let ?p = "''/cache/ps_cache/arxiv/pdf/2201/2201.00001v1.pdf''"
  let ?k = "''ps_cache/arxiv/pdf/2201/2201.00001v1.pdf''"
  have f: "files_pdf ?p = Some ''%PDF-1.5''" by (simp add: files_pdf_def)
  note t = upload_conditional[of files_pdf ?p "''%PDF-1.5''" gs_empty ?k, OF f]
  have m: "mime_from_fname ?p = ''application/pdf''" using t eval_mime_pdf by blast
  have 1: "upload files_pdf gs_empty ?p ?k =
        (Inr (''uploaded'', 8),
         gs_empty\<lparr>blobs := (blobs gs_empty)(?k \<mapsto>
               \<lparr>blob_data = ''%PDF-1.5'', content_type = ''application/pdf''\<rparr>),
           calls := calls gs_empty @ [GetBlob ?k, UploadFromFile ?k ''%PDF-1.5'' ''application/pdf'']\<rparr>)"
    using t m by (simp add: gs_empty_def)
  from t 1 have 2: "upload files_pdf (snd (upload files_pdf gs_empty ?p ?k)) ?p ?k =
      (Inr (''already_on_gs'', 0),
       (snd (upload files_pdf gs_empty ?p ?k))\<lparr>calls :=
          calls (snd (upload files_pdf gs_empty ?p ?k)) @ [GetBlob ?k]\<rparr>)
     \<and> transfers (snd (upload files_pdf (snd (upload files_pdf gs_empty ?p ?k)) ?p ?k))
        = transfers (snd (upload files_pdf gs_empty ?p ?k))"
    by (metis snd_conv)
  have 3: "transfers (snd (upload files_pdf gs_empty ?p ?k))
     = [UploadFromFile ?k ''%PDF-1.5'' ''application/pdf'']"
    unfolding 1 by (simp add: transfers_def gs_empty_def)
  show ?thesis
    using 2 3 unfolding 1 by (simp add: gs_empty_def transfers_def)
qed

subsection \<open>The targets of the actions\<close>

lemma act_subid_simp [simp]: "act_subid (a, b, c, d, e) = a"
  by (simp add: act_subid_def)

lemma upload_abs_src_acts_empty:
  "a \<in> set (upload_abs_src_acts subid arxiv_id subtype txt) \<and> act_target a = [] \<longleftrightarrow>
   abs_empty txt \<and> a = (subid, subtype, idv arxiv_id, ''upload'', [])"
proof -
  have p: "\<And>m. re_search True src_pdf_r txt = Some m \<Longrightarrow> group m 1 \<noteq> []"
    using src_pdf_group[of True "txt"] by fastforce
  have h: "\<And>m. re_search True src_html_r txt = Some m \<Longrightarrow> group m 1 \<noteq> []"
    using src_html_group[of True "txt"] by fastforce
  have t: "\<And>m. re_search True src_tex_r txt = Some m \<Longrightarrow> group m 1 \<noteq> []"
    using src_tex_group[of True "txt"] by fastforce
  show ?thesis
    unfolding upload_abs_src_acts_def Let_def abs_empty_def
    by (cases "re_search True abs_r txt"; cases "re_search True src_pdf_r txt";
        cases "re_search True src_html_r txt"; cases "re_search True src_tex_r txt")
       (auto dest: p h t)
qed

lemma rep_version_acts_empty:
  "a \<in> set (rep_version_acts subid arxiv_id subtype txt) \<and> act_target a = [] \<longleftrightarrow>
   moved_empty txt \<and> a = (subid, subtype, idv arxiv_id, ''upload'', [])"
  unfolding rep_version_acts_def moved_empty_def list_ex_iff by (auto simp: image_iff) force

lemma upload_abs_src_acts_build:
  "a \<in> set (upload_abs_src_acts subid arxiv_id subtype txt) \<Longrightarrow> act_op a = ''build+upload''
   \<Longrightarrow> act_target a \<noteq> []"
  unfolding upload_abs_src_acts_def Let_def by (auto split: option.splits)

lemma todo_loop_set:
  "todo_loop Identifier' ss acc = Inr todo \<Longrightarrow>
     (\<forall>s\<in>set ss. \<exists>acts. sub_todos Identifier' s = Inr acts)
   \<and> (\<forall>a. a \<in> set todo \<longleftrightarrow>
          a \<in> set acc \<or> (\<exists>s\<in>set ss. \<exists>acts. sub_todos Identifier' s = Inr acts \<and> a \<in> set acts))"
proof (induction ss arbitrary: acc)
  case Nil
  then show ?case by simp
next
  case (Cons s ss)
  from Cons.prems obtain acts where acts: "sub_todos Identifier' s = Inr acts"
    and rest: "todo_loop Identifier' ss (acc @ acts) = Inr todo"
    by (auto split: sum.splits)
  from Cons.IH[OF rest] acts show ?case by auto
qed

lemma sub_todos_empty_only:
  assumes "sub_todos Identifier' (subid, txt) = Inr acts" and "a \<in> set acts"
    and "act_target a = []"
  shows "act_op a = ''upload'' \<and> act_subid a = subid
         \<and> block_subtype txt = Some (act_subtype a) \<and> empty_target_block txt"
proof (cases "re_search False test_r txt")
  case (Some m)
  with assms show ?thesis by (simp add: sub_todos_def)
next
  case test: None
  show ?thesis
  proof (cases "re_search True new_r txt")
    case (Some m)
    with test assms obtain arxiv_id where
      "a \<in> set (upload_abs_src_acts subid arxiv_id ''new'' txt)"
      by (auto simp: sub_todos_def split: sum.splits)
    with assms(3) upload_abs_src_acts_empty[of a subid arxiv_id "''new''" "txt"]
    have "abs_empty txt" "a = (subid, ''new'', idv arxiv_id, ''upload'', [])" by auto
    with test Some show ?thesis
      by (simp add: block_subtype_def empty_target_block_def)
  next
    case new: None
    show ?thesis
    proof (cases "re_search True rep_r txt")
      case (Some m)
      with test new assms obtain arxiv_id where
        "a \<in> set (rep_version_acts subid arxiv_id ''rep'' txt)
         \<or> a \<in> set (upload_abs_src_acts subid arxiv_id ''rep'' txt)"
        by (auto simp: sub_todos_def split: sum.splits)
      with assms(3) upload_abs_src_acts_empty[of a subid arxiv_id "''rep''" "txt"]
        rep_version_acts_empty[of a subid arxiv_id "''rep''" "txt"]
      have "abs_empty txt \<or> moved_empty txt" "a = (subid, ''rep'', idv arxiv_id, ''upload'', [])"
        by auto
      with test new Some show ?thesis
        by (auto simp: block_subtype_def empty_target_block_def)
    next
      case rep: None
      show ?thesis
      proof (cases "re_search True wdr_r txt")
        case (Some m)
        from test new rep Some assms(1) obtain arxiv_id where
          "acts = filter (\<lambda>tt. act_op tt \<noteq> ''build+upload'')
                       (rep_version_acts subid arxiv_id ''wdr'' txt
                        @ upload_abs_src_acts subid arxiv_id ''wdr'' txt)"
          by (auto simp: sub_todos_def split: sum.splits)
        with assms(2) have
          "a \<in> set (rep_version_acts subid arxiv_id ''wdr'' txt)
           \<or> a \<in> set (upload_abs_src_acts subid arxiv_id ''wdr'' txt)"
          by auto
        with assms(3) upload_abs_src_acts_empty[of a subid arxiv_id "''wdr''" "txt"]
          rep_version_acts_empty[of a subid arxiv_id "''wdr''" "txt"]
        have "abs_empty txt \<or> moved_empty txt" "a = (subid, ''wdr'', idv arxiv_id, ''upload'', [])"
          by auto
        with test new rep Some show ?thesis
          by (auto simp: block_subtype_def empty_target_block_def)
      next
        case wdr: None
        with test new rep assms(1) have
          "acts = [] \<or> (\<exists>arxiv_id st. acts = upload_abs_acts subid arxiv_id st)"
          by (auto simp: sub_todos_def split: option.splits sum.splits)
        with assms(2,3) upload_abs_acts_target[of a subid] have False by auto
        then show ?thesis ..
      qed
    qed
  qed
qed

lemma sub_todos_empty_some:
  assumes "sub_todos Identifier' (subid, txt) = Inr acts" and "empty_target_block txt"
  shows "\<exists>a\<in>set acts. act_target a = [] \<and> act_subid a = subid"
proof -
  from assms(2) obtain k where k: "block_subtype txt = Some k"
    and e: "abs_empty txt \<or> (k \<noteq> ''new'' \<and> moved_empty txt)"
    by (auto simp: empty_target_block_def split: option.splits)
  from k have test: "re_search False test_r txt = None"
    by (cases "re_search False test_r txt") (simp_all add: block_subtype_def)
  show ?thesis
  proof (cases "re_search True new_r txt")
    case (Some m)
    with test k have "k = ''new''" by (auto simp: block_subtype_def)
    with e have ae: "abs_empty txt" by simp
    from test Some assms(1) obtain arxiv_id where
      acts: "acts = upload_abs_src_acts subid arxiv_id ''new'' txt"
      by (auto simp: sub_todos_def split: sum.splits)
    from ae upload_abs_src_acts_empty[of "(subid, ''new'', idv arxiv_id, ''upload'', [])"
        subid arxiv_id "''new''" "txt"]
    have "(subid, ''new'', idv arxiv_id, ''upload'', []) \<in> set acts" by (simp add: acts)
    then show ?thesis by force
  next
    case new: None
    show ?thesis
    proof (cases "re_search True rep_r txt")
      case (Some m)
      from test new Some assms(1) obtain arxiv_id where
        acts: "acts = rep_version_acts subid arxiv_id ''rep'' txt
                      @ upload_abs_src_acts subid arxiv_id ''rep'' txt"
        by (auto simp: sub_todos_def split: sum.splits)
      from e upload_abs_src_acts_empty[of "(subid, ''rep'', idv arxiv_id, ''upload'', [])"
          subid arxiv_id "''rep''" "txt"]
        rep_version_acts_empty[of "(subid, ''rep'', idv arxiv_id, ''upload'', [])"
          subid arxiv_id "''rep''" "txt"]
      have "(subid, ''rep'', idv arxiv_id, ''upload'', []) \<in> set acts" by (auto simp: acts)
      then show ?thesis by force
    next
      case rep: None
      show ?thesis
      proof (cases "re_search True wdr_r txt")
        case (Some m)
        from test new rep Some assms(1) obtain arxiv_id where
          acts: "acts = filter (\<lambda>tt. act_op tt \<noteq> ''build+upload'')
                       (rep_version_acts subid arxiv_id ''wdr'' txt
                        @ upload_abs_src_acts subid arxiv_id ''wdr'' txt)"
          by (auto simp: sub_todos_def split: sum.splits)
        from e upload_abs_src_acts_empty[of "(subid, ''wdr'', idv arxiv_id, ''upload'', [])"
            subid arxiv_id "''wdr''" "txt"]
          rep_version_acts_empty[of "(subid, ''wdr'', idv arxiv_id, ''upload'', [])"
            subid arxiv_id "''wdr''" "txt"]
        have "(subid, ''wdr'', idv arxiv_id, ''upload'', []) \<in> set acts" by (auto simp: acts)
        then show ?thesis by force
      next
        case None
        with test new rep k show ?thesis by (simp add: block_subtype_def)
      qed
    qed
  qed
qed

lemma make_todos_log_new_moved:
  "make_todos spec_Identifier (\<lambda>f. Some log_new_moved) ''publish.log'' = Inr todo_new_moved"
  by code_simp

lemma make_todos_log_empty_abs:
  "make_todos spec_Identifier (\<lambda>f. Some log_empty_abs) ''publish.log'' = Inr todo_empty_abs"
  by code_simp

lemma eval_empty_blocks:
  "read_subs (readlines log_new_moved) = [(''4004'', block_new_moved), (''4005'', block_cross_4005)]
   \<and> read_subs (readlines log_empty_abs) = [(''4002'', block_empty_abs)]
   \<and> \<not> empty_target_block block_wdr
   \<and> \<not> empty_target_block block_new_moved
   \<and> \<not> empty_target_block block_cross_4005
   \<and> moved_empty block_new_moved
   \<and> block_subtype block_empty_abs = Some ''new''
   \<and> empty_target_block block_empty_abs"
  by code_simp

lemma eval_acts_block_new:
  "upload_abs_src_acts ''4001'' id_2201 ''new'' block_new
     = [(''4001'', ''new'', ''2201.00001v1'', ''upload'', ''/data/new/1.abs''),
        (''4001'', ''new'', ''2201.00001v1'', ''upload'', ''/data/new/1.tar.gz''),
        (''4001'', ''new'', ''2201.00001v1'', ''build+upload'', ''2201.00001v1'')]
   \<and> upload_abs_acts ''4006'' id_2201 ''jref''
     = [(''4006'', ''jref'', ''2201.00001v1'', ''upload'', ''/data/ftp//arxiv/papers/2201/2201.00001.abs'')]
   \<and> re_search True src_tex_r block_new = Some (block_new, [79, 102, 120, 120])
   \<and> group (block_new, [79, 102, 120, 120]) 1 = ''/data/new/1.tar.gz''"
  by code_simp

text \<open>
  Claim C8, as stated: every action returned by \<open>make_todos\<close> has a non-empty target. It
  fails for a block whose \<open>absfile\<close> line names no file: the pattern captures the empty
  string, and the action is emitted with it.
\<close>

theorem make_todos_empty_target:
  "make_todos spec_Identifier (\<lambda>f. Some log_empty_abs) ''publish.log''
     = Inr [(''4002'', ''new'', ''2201.00002v1'', ''upload'', []),
            (''4002'', ''new'', ''2201.00002v1'', ''upload'', ''/data/new/2201.00002.pdf'')]
   \<and> act_target (''4002'', ''new'', ''2201.00002v1'', ''upload'', []) = []"
  using make_todos_log_empty_abs by (simp add: todo_empty_abs_def)

text \<open>
  Claim C8, amended: an action returned by \<open>make_todos\<close> has an empty target only when it
  is an \<open>upload\<close> of a block that is not a test submission and is a new submission, a
  replacement or a withdrawal, in which the \<open>absfile\<close> line names no file or, for a
  replacement or a withdrawal, a \<open>Moved\<close> line names no destination; and every such block
  gives an action with an empty target. So the target of a \<open>build+upload\<close> action and the
  targets of cross-listings and journal references are never empty, nor is a path captured
  from a \<open>Document source\<close> line.
\<close>

theorem make_todos_targets:
  "(make_todos Identifier' files fname = Inr todo \<and> files fname = Some content \<longrightarrow>
      (\<forall>a\<in>set todo. act_target a = [] \<longrightarrow>
          act_op a = ''upload''
          \<and> (\<exists>s\<in>set (read_subs (readlines content)).
                fst s = act_subid a \<and> block_subtype (snd s) = Some (act_subtype a)
                \<and> empty_target_block (snd s)))
      \<and> (\<forall>s\<in>set (read_subs (readlines content)). empty_target_block (snd s) \<longrightarrow>
            (\<exists>a\<in>set todo. act_target a = [] \<and> act_subid a = fst s))
      \<and> (\<forall>a\<in>set todo. act_op a = ''build+upload'' \<or> act_subtype a = ''cross''
                          \<or> act_subtype a = ''jref'' \<longrightarrow> act_target a \<noteq> []))
   \<and> (re_search ml src_pdf_r txt = Some m \<or> re_search ml src_html_r txt = Some m
        \<or> re_search ml src_tex_r txt = Some m \<longrightarrow> group m 1 \<noteq> [])
   \<and> (\<forall>a\<in>set (upload_abs_src_acts subid arxiv_id subtype txt).
         act_op a = ''build+upload'' \<longrightarrow> act_target a \<noteq> [])
   \<and> (\<forall>a\<in>set (upload_abs_acts subid arxiv_id subtype). act_target a \<noteq> [])"
proof (intro conjI impI)
  assume a: "make_todos Identifier' files fname = Inr todo \<and> files fname = Some content"
  let ?subs = "read_subs (readlines content)"
  from a have "todo_loop Identifier' ?subs [] = Inr todo"
    by (auto simp: make_todos_def)
  from todo_loop_set[OF this] have
    all: "\<forall>s\<in>set ?subs. \<exists>acts. sub_todos Identifier' s = Inr acts"
    and mem: "\<forall>a. a \<in> set todo \<longleftrightarrow>
          (\<exists>s\<in>set ?subs. \<exists>acts. sub_todos Identifier' s = Inr acts \<and> a \<in> set acts)"
    by simp_all
  show only: "\<forall>a\<in>set todo. act_target a = [] \<longrightarrow>
          act_op a = ''upload''
          \<and> (\<exists>s\<in>set ?subs.
                fst s = act_subid a \<and> block_subtype (snd s) = Some (act_subtype a)
                \<and> empty_target_block (snd s))"
  proof (intro ballI impI)
    fix a assume "a \<in> set todo" and e: "act_target a = []"
    with mem obtain s acts where s: "s \<in> set ?subs" and acts: "sub_todos Identifier' s = Inr acts"
      and ain: "a \<in> set acts" by blast
    obtain subid t where st: "s = (subid, t)" by (cases s)
    from sub_todos_empty_only[OF acts[unfolded st] ain e] s st
    show "act_op a = ''upload''
          \<and> (\<exists>s\<in>set ?subs.
                fst s = act_subid a \<and> block_subtype (snd s) = Some (act_subtype a)
                \<and> empty_target_block (snd s))"
      by force
  qed
  show "\<forall>s\<in>set ?subs. empty_target_block (snd s) \<longrightarrow>
            (\<exists>a\<in>set todo. act_target a = [] \<and> act_subid a = fst s)"
  proof (intro ballI impI)
    fix s assume s: "s \<in> set ?subs" and e: "empty_target_block (snd s)"
    obtain subid t where st: "s = (subid, t)" by (cases s)
    from all s obtain acts where acts: "sub_todos Identifier' s = Inr acts" by blast
    from sub_todos_empty_some[OF acts[unfolded st]] e st
    obtain a where ain: "a \<in> set acts" and ae: "act_target a = []" "act_subid a = subid"
      by auto
    from mem s acts ain have "a \<in> set todo" by blast
    with ae st show "\<exists>a\<in>set todo. act_target a = [] \<and> act_subid a = fst s"
      by auto
  qed
  show "\<forall>a\<in>set todo. act_op a = ''build+upload'' \<or> act_subtype a = ''cross''
                          \<or> act_subtype a = ''jref'' \<longrightarrow> act_target a \<noteq> []"
  proof (intro ballI impI notI)
    fix a assume ain: "a \<in> set todo"
      and k: "act_op a = ''build+upload'' \<or> act_subtype a = ''cross'' \<or> act_subtype a = ''jref''"
      and e: "act_target a = []"
    from only ain e obtain s :: "string \<times> string" where "act_op a = ''upload''"
      "block_subtype (snd s) = Some (act_subtype a)" by blast
    with k show False
      by (auto simp: block_subtype_def split: if_splits)
  qed
next
  assume "re_search ml src_pdf_r txt = Some m \<or> re_search ml src_html_r txt = Some m
        \<or> re_search ml src_tex_r txt = Some m"
  with src_pdf_group[of ml "txt" m] src_html_group[of ml "txt" m] src_tex_group[of ml "txt" m]
  show "group m 1 \<noteq> []" by fastforce
next
  show "\<forall>a\<in>set (upload_abs_src_acts subid arxiv_id subtype txt).
         act_op a = ''build+upload'' \<longrightarrow> act_target a \<noteq> []"
    using upload_abs_src_acts_build by blast
next
  show "\<forall>a\<in>set (upload_abs_acts subid arxiv_id subtype). act_target a \<noteq> []"
    using upload_abs_acts_target by blast
qed

theorem make_todos_targets_witness:
  "make_todos spec_Identifier (\<lambda>f. Some log_wdr) ''publish.log'' = Inr todo_wdr
   \<and> list_all (\<lambda>a. act_target a \<noteq> []) todo_wdr
   \<and> make_todos spec_Identifier (\<lambda>f. Some log_new_moved) ''publish.log'' = Inr todo_new_moved
   \<and> moved_empty block_new_moved
   \<and> list_all (\<lambda>a. act_target a \<noteq> []) todo_new_moved
   \<and> (\<exists>a\<in>set todo_new_moved. act_op a = ''build+upload'')
   \<and> (\<exists>a\<in>set todo_new_moved. act_subtype a = ''cross'')
   \<and> make_todos spec_Identifier (\<lambda>f. Some log_empty_abs) ''publish.log'' = Inr todo_empty_abs
   \<and> (\<exists>a\<in>set todo_empty_abs. act_target a = [] \<and> act_subid a = ''4002'')
   \<and> list_all (\<lambda>a. act_target a = [] \<and> act_op a = ''upload'' \<and> act_subid a = ''4002''
                    \<and> act_subtype a = ''new'')
        (filter (\<lambda>a. act_target a = []) todo_empty_abs)
   \<and> re_search True src_tex_r block_new = Some (block_new, [79, 102, 120, 120])
   \<and> group (block_new, [79, 102, 120, 120]) 1 \<noteq> []
   \<and> (\<exists>a\<in>set (upload_abs_src_acts ''4001'' id_2201 ''new'' block_new).
         act_op a = ''build+upload'' \<and> act_target a \<noteq> [])
   \<and> list_all (\<lambda>a. act_target a \<noteq> []) (upload_abs_acts ''4006'' id_2201 ''jref'')"
proof -
  note e = eval_empty_blocks
  note n = eval_acts_block_new
  have 1: "\<forall>a\<in>set todo_wdr. act_target a \<noteq> []"
    using make_todos_targets[of spec_Identifier "\<lambda>f. Some log_wdr" "''publish.log''" todo_wdr
        log_wdr] make_todos_log_wdr read_subs_log_wdr e
    by auto
  have 2: "\<forall>a\<in>set todo_new_moved. act_target a \<noteq> []"
    using make_todos_targets[of spec_Identifier "\<lambda>f. Some log_new_moved" "''publish.log''"
        todo_new_moved log_new_moved] make_todos_log_new_moved e
    by auto
  have 3: "\<exists>a\<in>set todo_empty_abs. act_target a = [] \<and> act_subid a = ''4002''"
    using make_todos_targets[of spec_Identifier "\<lambda>f. Some log_empty_abs" "''publish.log''"
        todo_empty_abs log_empty_abs] make_todos_log_empty_abs e
    by auto
  have 4: "\<forall>a\<in>set todo_empty_abs. act_target a = [] \<longrightarrow>
             act_op a = ''upload'' \<and> act_subid a = ''4002'' \<and> act_subtype a = ''new''"
    using make_todos_targets[of spec_Identifier "\<lambda>f. Some log_empty_abs" "''publish.log''"
        todo_empty_abs log_empty_abs] make_todos_log_empty_abs e
    by auto
  have 5: "group (block_new, [79, 102, 120, 120]) 1 \<noteq> []"
    using make_todos_targets[of _ _ _ _ _ True block_new "(block_new, [79, 102, 120, 120])"] n
    by blast
  have 6: "\<forall>a\<in>set (upload_abs_src_acts ''4001'' id_2201 ''new'' block_new).
             act_op a = ''build+upload'' \<longrightarrow> act_target a \<noteq> []"
    using make_todos_targets[of _ _ _ _ _ _ block_new _ "''4001''" id_2201 "''new''"]
    by blast
  have 7: "\<forall>a\<in>set (upload_abs_acts ''4006'' id_2201 ''jref''). act_target a \<noteq> []"
    using make_todos_targets[where subid = "''4006''" and arxiv_id = id_2201
        and subtype = "''jref''"]
    by blast
  have 8: "\<exists>a\<in>set (upload_abs_src_acts ''4001'' id_2201 ''new'' block_new).
         act_op a = ''build+upload'' \<and> act_target a \<noteq> []"
    using 6 n by simp
  have 9: "(\<exists>a\<in>set todo_new_moved. act_op a = ''build+upload'')
           \<and> (\<exists>a\<in>set todo_new_moved. act_subtype a = ''cross'')"
    by (simp add: todo_new_moved_def)
  show ?thesis
    using 1 2 3 4 5 7 8 9 n make_todos_log_wdr make_todos_log_new_moved make_todos_log_empty_abs e
    by (simp add: list_all_iff)
qed

subsection \<open>Waiting for the PDF\<close>

lemma exists'_simps [simp]:
  "fst (exists' w p s) = present w (checks s) p"
  "now (snd (exists' w p s)) = now s + exists_time w (checks s)"
  "checks (snd (exists' w p s)) = Suc (checks s)"
  "sleeps (snd (exists' w p s)) = sleeps s"
  "requests (snd (exists' w p s)) = requests s"
  by (simp_all add: exists'_def)






lemma eval_paths_id_2201:
  "pdf_cache_path id_2201 = ''/cache/ps_cache/arxiv/pdf/2201/2201.00001v1.pdf''
   \<and> arxiv_pdf_url ''web5.arxiv.org'' id_2201
       = ''https://web5.arxiv.org/pdf/2201.00001v1.pdf?nocdn=1''"
  by code_simp



text \<open>
  Claim C7. When the file is in the cache, at the path made of the archive, the
  year-month, the file name and the version of the identifier, \<open>ensure_pdf\<close> returns at
  once with the status \<open>already exists\<close>: it sends no request and does not sleep.
\<close>

theorem ensure_pdf_already_exists:
  assumes "present w (checks s)
             (Path (PS_CACHE_PREFIX @ ''/''
                    @ (if is_old_id arxiv_id then archive arxiv_id else ''arxiv'')
                    @ ''/pdf/'' @ yymm arxiv_id @ ''/'' @ filename arxiv_id @ ''v''
                    @ str_int (version arxiv_id) @ ''.pdf''))"
  shows "ensure_pdf w host arxiv_id s =
           Some (Inr (pdf_cache_path arxiv_id, arxiv_pdf_url host arxiv_id,
                      Some ''already exists'',
                      ms_since w (snd (exists' w (pdf_cache_path arxiv_id) s)) (now s)),
                 snd (exists' w (pdf_cache_path arxiv_id) s))
         \<and> requests (snd (exists' w (pdf_cache_path arxiv_id) s)) = requests s
         \<and> sleeps (snd (exists' w (pdf_cache_path arxiv_id) s)) = sleeps s
         \<and> checks (snd (exists' w (pdf_cache_path arxiv_id) s)) = Suc (checks s)"
proof -
  have "present w (checks s) (pdf_cache_path arxiv_id)"
    using assms by (cases "is_old_id arxiv_id") (simp_all add: pdf_cache_path_def Let_def)
  then show ?thesis
    by (simp add: ensure_pdf_def Let_def)
qed

theorem ensure_pdf_already_exists_witness:
  "ensure_pdf world_cached ''web5.arxiv.org'' id_2201 run0 =
     Some (Inr (''/cache/ps_cache/arxiv/pdf/2201/2201.00001v1.pdf'',
                ''https://web5.arxiv.org/pdf/2201.00001v1.pdf?nocdn=1'',
                Some ''already exists'', 50),
           \<lparr>now = 0.05, checks = 1, sleeps = 0, requests = []\<rparr>)
   \<and> requests run0 = []"
proof -
  have p: "present world_cached (checks run0)
          (Path (PS_CACHE_PREFIX @ ''/''
                 @ (if is_old_id id_2201 then archive id_2201 else ''arxiv'')
                 @ ''/pdf/'' @ yymm id_2201 @ ''/'' @ filename id_2201 @ ''v''
                 @ str_int (version id_2201) @ ''.pdf''))"
    by (simp add: world_cached_def)
  have s: "snd (exists' world_cached ''/cache/ps_cache/arxiv/pdf/2201/2201.00001v1.pdf'' run0)
      = \<lparr>now = 0.05, checks = 1, sleeps = 0, requests = []\<rparr>"
    by (simp add: exists'_def world_cached_def run0_def)
  have m: "ms_since world_cached \<lparr>now = 0.05, checks = 1, sleeps = 0, requests = []\<rparr> (now run0)
      = 50"
    by (simp add: ms_since_def world_cached_def run0_def)
  from ensure_pdf_already_exists[of world_cached run0 id_2201 "''web5.arxiv.org''", OF p]
  show ?thesis
    unfolding eval_paths_id_2201[THEN conjunct1] eval_paths_id_2201[THEN conjunct2] s m
    by (simp add: run0_def)
qed

end
